theory Spec2Isabelle
  imports Complex_Main
begin

section \<open>The session document of \<^verbatim>\<open>src/models/Game.ts\<close>\<close>

text \<open>
  The Mongoose schema of a game session, field by field. A JavaScript \<^verbatim>\<open>number\<close> that the
  code uses as a counter or a coordinate is an \<open>int\<close>, \<^verbatim>\<open>komi\<close> is a \<open>real\<close>, an
  \<^verbatim>\<open>ObjectId\<close> and a \<^verbatim>\<open>Date\<close> are natural numbers, and a field that may be \<^verbatim>\<open>null\<close>
  or absent is an \<open>option\<close>. Field names are the schema's; where two sub-documents share
  a name, the later one carries a prefix. The chat log, the spectator list and the
  timestamps \<^verbatim>\<open>updatedAt\<close> and \<^verbatim>\<open>lastActivity\<close> are read by none of the methods
  and routes below and are left out. A field with an \<^verbatim>\<open>enum\<close> of strings is a
  datatype of the enum's values.
\<close>

datatype StoneColor = Black | White

datatype GameSessionStatus = Waiting | Active | Paused | Completed | Abandoned

datatype KoRule = Standard | Superko

datatype ScoringMethod = Area | Territory

datatype TimeControl = None_TimeControl | Blitz | Rapid | Classical

type_synonym ObjectId = nat

type_synonym Date = nat

record GamePlayerData =
  playerId :: ObjectId
  username :: string
  displayName :: string

record GamePlayer = GamePlayerData +
  color :: StoneColor
  isReady :: bool
  isConnected :: bool
  lastSeen :: Date
  timeRemaining :: "int option"
  score :: int
  player_capturedStones :: int

record GameSessionSettings =
  boardSize :: int
  timeControl :: TimeControl
  timeLimit :: "int option"
  handicap :: int
  komi :: real
  allowUndo :: bool
  allowResign :: bool

record LastMove =
  last_x :: int
  last_y :: int
  last_color :: StoneColor
  last_timestamp :: Date

record GameBoardCell =
  stone :: "StoneColor option"
  liberties :: int
  groupId :: "string option"

record CapturedStones =
  black :: int
  white :: int

text \<open>
  An entry of \<^verbatim>\<open>moveHistory\<close>, as the document holds it. The object literal that
  \<^verbatim>\<open>makeMove\<close> pushes has the empty array for \<^verbatim>\<open>capturedStones\<close>; the one that
  \<^verbatim>\<open>passTurn\<close> pushes has no such key, and Mongoose gives the entry the default of an
  array field, the empty array, when it casts it.
\<close>

record GameMoveHistory =
  move_playerId :: ObjectId
  move_color :: StoneColor
  move_x :: int
  move_y :: int
  move_timestamp :: Date
  move_capturedStones :: "(int \<times> int) list"
  pass :: bool

type_synonym Board = "GameBoardCell list list"

record GameBoardState =
  currentTurn :: StoneColor
  moveCount :: int
  lastMove :: "LastMove option"
  board :: Board
  capturedStones :: CapturedStones
  moveHistory :: "GameMoveHistory list"
  consecutivePasses :: int

record GameRules =
  suicideAllowed :: bool
  koRule :: KoRule
  scoringMethod :: ScoringMethod

record GameMetadata =
  createdBy :: ObjectId
  startedAt :: "Date option"

record GameDocument =
  gameId :: string
  status :: GameSessionStatus
  players :: "GamePlayer list"
  gameSettings :: GameSessionSettings
  boardState :: GameBoardState
  gameRules :: GameRules
  metadata :: GameMetadata

text \<open>
  What a method throws. The first seven are the \<^verbatim>\<open>new Error(...)\<close> messages of
  \<^verbatim>\<open>Game.ts\<close>; \<open>TypeError\<close> is the engine's error for a property read on
  \<^verbatim>\<open>undefined\<close> (a board row or cell that does not exist) and \<open>RangeError\<close> the one
  for \<^verbatim>\<open>Array(size)\<close> with a negative size.
\<close>

datatype error =
    GameIsFull
  | GameIsNotActive
  | NotYourTurn
  | InvalidCoordinates
  | PositionAlreadyOccupied
  | NeedExactlyTwoPlayers
  | AllPlayersMustBeReady
  | TypeError
  | RangeError

text \<open>
  A method mutates \<^verbatim>\<open>this\<close> and either returns or throws: it is a function from the
  document to the outcome (\<open>Inl\<close> the error thrown, \<open>Inr\<close> the value returned) paired
  with the document as the method leaves it, whether it returned or threw.
\<close>

type_synonym 'a outcome = "(error + 'a) \<times> GameDocument"

subsection \<open>\<^verbatim>\<open>initializeBoard\<close>\<close>

definition freshCell :: GameBoardCell where
  "freshCell = \<lparr>stone = None, liberties = 4, groupId = None\<rparr>"

definition setLiberties :: "Board \<Rightarrow> nat \<Rightarrow> nat \<Rightarrow> int \<Rightarrow> Board" where
  "setLiberties b r c v = b[r := (b ! r)[c := (b ! r ! c)\<lparr>liberties := v\<rparr>]]"

text \<open>One round of the loop that sets the edge liberties, for index \<open>i\<close>.\<close>

definition edgeRound :: "nat \<Rightarrow> nat \<Rightarrow> Board \<Rightarrow> Board" where
  "edgeRound n i b =
     setLiberties (setLiberties (setLiberties (setLiberties b 0 i 3) (n - 1) i 3) i 0 3) i (n - 1) 3"

definition cornerLiberties :: "nat \<Rightarrow> Board \<Rightarrow> Board" where
  "cornerLiberties n b =
     setLiberties (setLiberties (setLiberties (setLiberties b 0 0 2) 0 (n - 1) 2) (n - 1) 0 2)
       (n - 1) (n - 1) 2"

definition setBoard :: "Board \<Rightarrow> GameDocument \<Rightarrow> GameDocument" where
  "setBoard b g = g\<lparr>boardState := (boardState g)\<lparr>board := b\<rparr>\<rparr>"

definition initializeBoard :: "GameDocument \<Rightarrow> unit outcome" where
  "initializeBoard g =
     (let size = boardSize (gameSettings g) in
      if size < 0 then (Inl RangeError, g)
      else let n = nat size;
               b = fold (edgeRound n) [0..<n] (replicate n (replicate n freshCell))
           in if n = 0 then (Inl TypeError, setBoard b g)
              else (Inr (), setBoard (cornerLiberties n b) g))"

subsection \<open>\<^verbatim>\<open>addPlayer\<close>\<close>

text \<open>
  The pushed sub-document takes \<^verbatim>\<open>score\<close> and \<^verbatim>\<open>capturedStones\<close> from the schema
  defaults (0) and has no \<^verbatim>\<open>timeRemaining\<close>. \<open>now\<close> is the value of \<^verbatim>\<open>new Date()\<close>.
\<close>

definition newPlayer :: "GamePlayerData \<Rightarrow> StoneColor \<Rightarrow> Date \<Rightarrow> GamePlayer" where
  "newPlayer pd c now =
     \<lparr>playerId = playerId pd, username = username pd, displayName = displayName pd,
      color = c, isReady = False, isConnected = True, lastSeen = now,
      timeRemaining = None, score = 0, player_capturedStones = 0\<rparr>"

definition addPlayer :: "GamePlayerData \<Rightarrow> Date \<Rightarrow> GameDocument \<Rightarrow> unit outcome" where
  "addPlayer pd now g =
     (if length (players g) \<ge> 2 then (Inl GameIsFull, g)
      else let c = (if length (players g) = 0 then Black else White)
           in (Inr (), g\<lparr>players := players g @ [newPlayer pd c now]\<rparr>))"

subsection \<open>\<^verbatim>\<open>makeMove\<close> and \<^verbatim>\<open>passTurn\<close>\<close>

definition otherColor :: "StoneColor \<Rightarrow> StoneColor" where
  "otherColor c = (if c = Black then White else Black)"

definition placeStone :: "Board \<Rightarrow> nat \<Rightarrow> nat \<Rightarrow> StoneColor \<Rightarrow> Board" where
  "placeStone b x y c = b[y := (b ! y)[x := (b ! y ! x)\<lparr>stone := Some c\<rparr>]]"

definition stoneMove :: "ObjectId \<Rightarrow> StoneColor \<Rightarrow> int \<Rightarrow> int \<Rightarrow> Date \<Rightarrow> GameMoveHistory" where
  "stoneMove pid c x y t =
     \<lparr>move_playerId = pid, move_color = c, move_x = x, move_y = y, move_timestamp = t,
      move_capturedStones = [], pass = False\<rparr>"

definition passMove :: "ObjectId \<Rightarrow> StoneColor \<Rightarrow> Date \<Rightarrow> GameMoveHistory" where
  "passMove pid c t =
     \<lparr>move_playerId = pid, move_color = c, move_x = - 1, move_y = - 1, move_timestamp = t,
      move_capturedStones = [], pass = True\<rparr>"

text \<open>
  \<open>t1\<close> and \<open>t2\<close> are the two \<^verbatim>\<open>new Date()\<close> values of \<^verbatim>\<open>makeMove\<close>. After the
  bounds check against \<^verbatim>\<open>boardSize\<close> the code reads \<^verbatim>\<open>board[y][x].stone\<close>; when the
  stored board has no such row or cell that read throws a \<open>TypeError\<close>. Coordinates
  are integers here: a \<^verbatim>\<open>number\<close> with a fraction either fails the bounds check or,
  past it, indexes no cell and ends in the same \<open>TypeError\<close>.
\<close>

definition makeMove ::
  "ObjectId \<Rightarrow> int \<Rightarrow> int \<Rightarrow> StoneColor \<Rightarrow> Date \<Rightarrow> Date \<Rightarrow> GameDocument \<Rightarrow> bool outcome" where
  "makeMove pid x y c t1 t2 g =
     (let bs = boardState g; size = boardSize (gameSettings g) in
      if status g \<noteq> Active then (Inl GameIsNotActive, g)
      else if currentTurn bs \<noteq> c then (Inl NotYourTurn, g)
      else if x < 0 \<or> x \<ge> size \<or> y < 0 \<or> y \<ge> size then (Inl InvalidCoordinates, g)
      else if nat y \<ge> length (board bs) \<or> nat x \<ge> length (board bs ! nat y)
        then (Inl TypeError, g)
      else if stone (board bs ! nat y ! nat x) \<noteq> None then (Inl PositionAlreadyOccupied, g)
      else (Inr True,
            g\<lparr>boardState := bs
               \<lparr>moveHistory := moveHistory bs @ [stoneMove pid c x y t1],
                board := placeStone (board bs) (nat x) (nat y) c,
                moveCount := moveCount bs + 1,
                currentTurn := otherColor c,
                lastMove := Some \<lparr>last_x = x, last_y = y, last_color = c, last_timestamp = t2\<rparr>,
                consecutivePasses := 0\<rparr>\<rparr>))"

definition passTurn :: "ObjectId \<Rightarrow> StoneColor \<Rightarrow> Date \<Rightarrow> GameDocument \<Rightarrow> bool outcome" where
  "passTurn pid c t g =
     (let bs = boardState g in
      if status g \<noteq> Active then (Inl GameIsNotActive, g)
      else if currentTurn bs \<noteq> c then (Inl NotYourTurn, g)
      else let bs' = bs\<lparr>moveHistory := moveHistory bs @ [passMove pid c t],
                        currentTurn := otherColor c,
                        consecutivePasses := consecutivePasses bs + 1\<rparr>;
               g' = g\<lparr>boardState := bs'\<rparr>
           in (Inr True,
               if consecutivePasses bs' \<ge> 2 then g'\<lparr>status := Completed\<rparr> else g'))"

text \<open>
  The checks of \<^verbatim>\<open>makeMove\<close> taken together: the session is active, it is the
  colour's turn, the coordinates are within \<^verbatim>\<open>boardSize\<close>, the cell exists on the
  stored board and holds no stone.
\<close>

definition accepts :: "int \<Rightarrow> int \<Rightarrow> StoneColor \<Rightarrow> GameDocument \<Rightarrow> bool" where
  "accepts x y c g \<longleftrightarrow>
     status g = Active \<and> currentTurn (boardState g) = c \<and>
     0 \<le> x \<and> x < boardSize (gameSettings g) \<and> 0 \<le> y \<and> y < boardSize (gameSettings g) \<and>
     nat y < length (board (boardState g)) \<and> nat x < length (board (boardState g) ! nat y) \<and>
     stone (board (boardState g) ! nat y ! nat x) = None"

subsection \<open>\<^verbatim>\<open>startGame\<close>\<close>

definition startGame :: "Date \<Rightarrow> GameDocument \<Rightarrow> unit outcome" where
  "startGame now g =
     (if length (players g) \<noteq> 2 then (Inl NeedExactlyTwoPlayers, g)
      else if \<not> list_all isReady (players g) then (Inl AllPlayersMustBeReady, g)
      else initializeBoard
             (g\<lparr>status := Active, metadata := (metadata g)\<lparr>startedAt := Some now\<rparr>\<rparr>))"

subsection \<open>A game played move by move\<close>

datatype action =
    Move ObjectId int int StoneColor Date Date
  | Pass ObjectId StoneColor Date

fun step :: "action \<Rightarrow> GameDocument \<Rightarrow> bool outcome" where
  "step (Move pid x y c t1 t2) g = makeMove pid x y c t1 t2 g"
| "step (Pass pid c t) g = passTurn pid c t g"

text \<open>
  The document after a list of calls, each made on the document the previous one left,
  whether that call returned or threw.
\<close>

fun play :: "action list \<Rightarrow> GameDocument \<Rightarrow> GameDocument" where
  "play [] g = g"
| "play (a # as) g = play as (snd (step a g))"

text \<open>The boards the document goes through during those calls, the first one included.\<close>

fun positions :: "action list \<Rightarrow> GameDocument \<Rightarrow> Board list" where
  "positions [] g = [board (boardState g)]"
| "positions (a # as) g = board (boardState g) # positions as (snd (step a g))"

section \<open>The route handlers of the games router\<close>

text \<open>
  A handler loads the document (\<^verbatim>\<open>Game.findOne\<close>: \<open>None\<close> when there is none), works on
  the loaded copy and answers. It is a function to the response and the stored document
  afterwards: the copy when \<^verbatim>\<open>game.save()\<close> was reached, the document as loaded when
  the handler answered before saving or a throw took it to its \<^verbatim>\<open>catch\<close>. The socket
  events belong to the collaborators and change no document.

  \<^verbatim>\<open>game.save()\<close> validates the document against the schema and throws when a
  validator refuses it; the handler's \<^verbatim>\<open>catch\<close> then answers 500 and the store
  keeps what it had. Of the validators on the fields kept here, one can refuse a value
  of the field's type: \<^verbatim>\<open>boardSize\<close> must be 9, 13 or 19 (\<open>schemaValid\<close>). The
  store itself is a collaborator and does not fail. Every document the routes store is
  valid (lemma \<open>reachable_schemaValid\<close> below), so only the save of a create
  request is ever refused.
\<close>

datatype Response = JsonError nat string | JsonOk nat string

type_synonym handled = "Response \<times> GameDocument option"

text \<open>
  \<^verbatim>\<open>new Game({...})\<close> of \<^verbatim>\<open>POST /\<close>: the fields the route gives, the schema defaults for
  \<^verbatim>\<open>boardState\<close>.
\<close>

definition newGame :: "string \<Rightarrow> GameSessionSettings \<Rightarrow> ObjectId \<Rightarrow> GameDocument" where
  "newGame gid settings creator =
     \<lparr>gameId = gid, status = Waiting, players = [], gameSettings = settings,
      boardState =
        \<lparr>currentTurn = Black, moveCount = 0, lastMove = None, board = [],
         capturedStones = \<lparr>black = 0, white = 0\<rparr>, moveHistory = [],
         consecutivePasses = 0\<rparr>,
      gameRules = \<lparr>suicideAllowed = False, koRule = Standard, scoringMethod = Territory\<rparr>,
      metadata = \<lparr>createdBy = creator, startedAt = None\<rparr>\<rparr>"

definition schemaValid :: "GameDocument \<Rightarrow> bool" where
  "schemaValid g \<longleftrightarrow> boardSize (gameSettings g) \<in> {9, 13, 19}"

definition createRoute :: "string \<Rightarrow> GameSessionSettings \<Rightarrow> GamePlayerData \<Rightarrow> Date \<Rightarrow> handled" where
  "createRoute gid settings pd now =
     (case addPlayer pd now (newGame gid settings (playerId pd)) of
        (Inl e, _) \<Rightarrow> (JsonError 500 ''Server error creating game'', None)
      | (Inr _, game) \<Rightarrow>
          if \<not> schemaValid game then (JsonError 500 ''Server error creating game'', None)
          else (JsonOk 201 ''Game created successfully'', Some game))"

definition joinRoute :: "GameDocument option \<Rightarrow> GamePlayerData \<Rightarrow> Date \<Rightarrow> handled" where
  "joinRoute stored pd now =
     (case stored of
        None \<Rightarrow> (JsonError 404 ''Game not found'', stored)
      | Some game \<Rightarrow>
          if status game \<noteq> Waiting then (JsonError 400 ''Game is not accepting players'', stored)
          else if length (players game) \<ge> 2 then (JsonError 400 ''Game is full'', stored)
          else if list_ex (\<lambda>p. playerId p = playerId pd) (players game)
            then (JsonError 400 ''You are already in this game'', stored)
          else (case addPlayer pd now game of
                  (Inl e, _) \<Rightarrow> (JsonError 500 ''Server error joining game'', stored)
                | (Inr _, game') \<Rightarrow>
                    if \<not> schemaValid game' then (JsonError 500 ''Server error joining game'', stored)
                    else (JsonOk 200 ''Joined game successfully'', Some game')))"

text \<open>\<^verbatim>\<open>player.isReady = true\<close> on the first player that \<^verbatim>\<open>find\<close> returns.\<close>

fun markReady :: "ObjectId \<Rightarrow> GamePlayer list \<Rightarrow> GamePlayer list" where
  "markReady pid [] = []"
| "markReady pid (p # ps) =
     (if playerId p = pid then p\<lparr>isReady := True\<rparr> # ps else p # markReady pid ps)"

definition readyRoute :: "GameDocument option \<Rightarrow> ObjectId \<Rightarrow> Date \<Rightarrow> handled" where
  "readyRoute stored pid now =
     (case stored of
        None \<Rightarrow> (JsonError 404 ''Game not found'', stored)
      | Some game \<Rightarrow>
          (case find (\<lambda>p. playerId p = pid) (players game) of
             None \<Rightarrow> (JsonError 403 ''You are not part of this game'', stored)
           | Some _ \<Rightarrow>
               let game1 = game\<lparr>players := markReady pid (players game)\<rparr> in
               if \<not> schemaValid game1
               then (JsonError 500 ''Server error updating player ready status'', stored)
               else if length (players game1) = 2 \<and> list_all isReady (players game1)
               then (case startGame now game1 of
                       (Inl e, _) \<Rightarrow>
                         (JsonError 500 ''Server error updating player ready status'', Some game1)
                     | (Inr _, game2) \<Rightarrow>
                         if \<not> schemaValid game2
                         then (JsonError 500 ''Server error updating player ready status'',
                               Some game1)
                         else (JsonOk 200 ''Player ready status updated'', Some game2))
               else (JsonOk 200 ''Player ready status updated'', Some game1)))"

definition moveRoute :: "GameDocument option \<Rightarrow> ObjectId \<Rightarrow> int \<Rightarrow> int \<Rightarrow> Date \<Rightarrow> Date \<Rightarrow> handled" where
  "moveRoute stored pid x y t1 t2 =
     (case stored of
        None \<Rightarrow> (JsonError 404 ''Game not found'', stored)
      | Some game \<Rightarrow>
          if status game \<noteq> Active then (JsonError 400 ''Game is not active'', stored)
          else (case find (\<lambda>p. playerId p = pid) (players game) of
                  None \<Rightarrow> (JsonError 403 ''You are not part of this game'', stored)
                | Some player \<Rightarrow>
                    (case makeMove pid x y (color player) t1 t2 game of
                       (Inl e, _) \<Rightarrow> (JsonError 500 ''Server error making move'', stored)
                     | (Inr moveSuccess, game') \<Rightarrow>
                         if \<not> moveSuccess then (JsonError 400 ''Invalid move'', stored)
                         else if \<not> schemaValid game'
                           then (JsonError 500 ''Server error making move'', stored)
                         else (JsonOk 200 ''Move made successfully'', Some game'))))"

definition passRoute :: "GameDocument option \<Rightarrow> ObjectId \<Rightarrow> Date \<Rightarrow> handled" where
  "passRoute stored pid t =
     (case stored of
        None \<Rightarrow> (JsonError 404 ''Game not found'', stored)
      | Some game \<Rightarrow>
          if status game \<noteq> Active then (JsonError 400 ''Game is not active'', stored)
          else (case find (\<lambda>p. playerId p = pid) (players game) of
                  None \<Rightarrow> (JsonError 403 ''You are not part of this game'', stored)
                | Some player \<Rightarrow>
                    (case passTurn pid (color player) t game of
                       (Inl e, _) \<Rightarrow> (JsonError 500 ''Server error passing turn'', stored)
                     | (Inr passSuccess, game') \<Rightarrow>
                         if \<not> passSuccess then (JsonError 400 ''Cannot pass turn'', stored)
                         else if \<not> schemaValid game'
                           then (JsonError 500 ''Server error passing turn'', stored)
                         else (JsonOk 200 ''Turn passed successfully'', Some game'))))"

text \<open>
  The resign route ends the game; the winner it looks up goes into the socket event
  only.
\<close>

definition resignRoute :: "GameDocument option \<Rightarrow> ObjectId \<Rightarrow> handled" where
  "resignRoute stored pid =
     (case stored of
        None \<Rightarrow> (JsonError 404 ''Game not found'', stored)
      | Some game \<Rightarrow>
          if status game \<noteq> Active then (JsonError 400 ''Game is not active'', stored)
          else (case find (\<lambda>p. playerId p = pid) (players game) of
                  None \<Rightarrow> (JsonError 403 ''You are not part of this game'', stored)
                | Some player \<Rightarrow>
                    if \<not> schemaValid (game\<lparr>status := Completed\<rparr>)
                    then (JsonError 500 ''Server error resigning from game'', stored)
                    else (JsonOk 200 ''Game resigned successfully'',
                          Some (game\<lparr>status := Completed\<rparr>))))"

text \<open>
  The documents the routes can store: the one a create request stores, and from a stored
  document the one a join, ready, move, pass or resign request leaves. (A chat request
  writes the chat log only and a delete request removes the document; the socket
  handlers of \<^verbatim>\<open>server.ts\<close> load and store no game.)
\<close>

inductive reachable :: "GameDocument \<Rightarrow> bool" where
  created: "snd (createRoute gid settings pd now) = Some g \<Longrightarrow> reachable g"
| joined: "reachable g \<Longrightarrow> snd (joinRoute (Some g) pd now) = Some g' \<Longrightarrow> reachable g'"
| readied: "reachable g \<Longrightarrow> snd (readyRoute (Some g) pid now) = Some g' \<Longrightarrow> reachable g'"
| moved: "reachable g \<Longrightarrow> snd (moveRoute (Some g) pid x y t1 t2) = Some g' \<Longrightarrow> reachable g'"
| passed: "reachable g \<Longrightarrow> snd (passRoute (Some g) pid t) = Some g' \<Longrightarrow> reachable g'"
| resigned: "reachable g \<Longrightarrow> snd (resignRoute (Some g) pid) = Some g' \<Longrightarrow> reachable g'"

section \<open>Groups and liberties as the specification defines them\<close>

text \<open>
  \<^verbatim>\<open>Game.ts\<close> has no function that looks at groups, liberties, captures or scores. The
  definitions of this section follow the specification's words (its sections 3, 4.1 and
  4.2), so that what the methods above do to a board can be compared with them. Each name
  starts with \<open>spec_\<close>. A coordinate is \<open>(x, y)\<close>, column and row, as in
  \<^verbatim>\<open>board[y][x]\<close>.
\<close>

type_synonym coord = "nat \<times> nat"

definition spec_onBoard :: "Board \<Rightarrow> coord \<Rightarrow> bool" where
  "spec_onBoard b p \<longleftrightarrow> snd p < length b \<and> fst p < length (b ! snd p)"

definition spec_stoneAt :: "Board \<Rightarrow> coord \<Rightarrow> StoneColor option" where
  "spec_stoneAt b p = (if spec_onBoard b p then stone (b ! snd p ! fst p) else None)"

text \<open>The stone layout of a board: what a position is, apart from the colour to move.\<close>

definition spec_layout :: "Board \<Rightarrow> StoneColor option list list" where
  "spec_layout b = map (map stone) b"

definition spec_stonesOnBoard :: "Board \<Rightarrow> StoneColor \<Rightarrow> nat" where
  "spec_stonesOnBoard b c = length (filter (\<lambda>s. s = Some c) (concat (spec_layout b)))"

text \<open>The intersections adjacent to \<open>p\<close> (4-connectivity).\<close>

definition spec_neighbours :: "Board \<Rightarrow> coord \<Rightarrow> coord list" where
  "spec_neighbours b p =
     filter (spec_onBoard b)
       ([(fst p + 1, snd p), (fst p, snd p + 1)]
        @ (if 0 < fst p then [(fst p - 1, snd p)] else [])
        @ (if 0 < snd p then [(fst p, snd p - 1)] else []))"

text \<open>
  Flood fill. One round collects the stones of colour \<open>c\<close> that are adjacent to the
  stones found so far and not yet among them; the fill stops at the first round that
  finds none. A round that finds one uses up one intersection of the board, so a fuel of
  as many rounds as the board has intersections is never exhausted (lemma
  \<open>spec_flood_closed\<close> below).
\<close>

definition spec_frontier :: "Board \<Rightarrow> StoneColor \<Rightarrow> coord list \<Rightarrow> coord list" where
  "spec_frontier b c ps =
     remdups (filter (\<lambda>q. spec_stoneAt b q = Some c \<and> q \<notin> set ps)
                (concat (map (spec_neighbours b) ps)))"

fun spec_flood :: "nat \<Rightarrow> Board \<Rightarrow> StoneColor \<Rightarrow> coord list \<Rightarrow> coord list" where
  "spec_flood 0 b c ps = ps"
| "spec_flood (Suc n) b c ps =
     (let new = spec_frontier b c ps
      in if new = [] then ps else spec_flood n b c (ps @ new))"

definition spec_groupAt :: "Board \<Rightarrow> coord \<Rightarrow> coord list" where
  "spec_groupAt b p =
     (case spec_stoneAt b p of
        None \<Rightarrow> []
      | Some c \<Rightarrow> spec_flood (sum_list (map length b)) b c [p])"

text \<open>The distinct empty intersections adjacent to any stone of the group at \<open>p\<close>.\<close>

definition spec_liberties :: "Board \<Rightarrow> coord \<Rightarrow> coord list" where
  "spec_liberties b p =
     remdups (filter (\<lambda>q. spec_stoneAt b q = None)
                (concat (map (spec_neighbours b) (spec_groupAt b p))))"

definition spec_libertyCount :: "Board \<Rightarrow> coord \<Rightarrow> nat" where
  "spec_libertyCount b p = length (spec_liberties b p)"

text \<open>
  \<^verbatim>\<open>place(color, coord)\<close> of section 4.1: put the stone, take off the board every
  opposing group adjacent to it that has no liberty left, and return the new board with
  the captured coordinates; \<open>None\<close> when the coordinate is off the board or occupied.
\<close>

definition spec_captured :: "Board \<Rightarrow> StoneColor \<Rightarrow> coord \<Rightarrow> coord list" where
  "spec_captured b c p =
     remdups (concat (map (\<lambda>q. if spec_stoneAt b q = Some (otherColor c) \<and> spec_libertyCount b q = 0
                                then spec_groupAt b q else [])
                          (spec_neighbours b p)))"

definition spec_remove :: "Board \<Rightarrow> coord list \<Rightarrow> Board" where
  "spec_remove b ps =
     fold (\<lambda>q b'. b'[snd q := (b' ! snd q)[fst q := (b' ! snd q ! fst q)\<lparr>stone := None\<rparr>]]) ps b"

definition spec_place :: "Board \<Rightarrow> StoneColor \<Rightarrow> coord \<Rightarrow> (Board \<times> coord list) option" where
  "spec_place b c p =
     (if \<not> spec_onBoard b p \<or> spec_stoneAt b p \<noteq> None then None
      else let b1 = placeStone b (fst p) (snd p) c;
               captured = spec_captured b1 c p
           in Some (spec_remove b1 captured, captured))"

text \<open>
  The commit of section 4.2, step 5, with the four changes it lists and no other: the
  move appended, the stone on the board, the consecutive-pass counter at 0, the turn
  flipped.
\<close>

definition spec_commit ::
  "ObjectId \<Rightarrow> int \<Rightarrow> int \<Rightarrow> StoneColor \<Rightarrow> Date \<Rightarrow> GameDocument \<Rightarrow> GameDocument" where
  "spec_commit pid x y c t g =
     g\<lparr>boardState := (boardState g)
        \<lparr>moveHistory := moveHistory (boardState g) @ [stoneMove pid c x y t],
         board := placeStone (board (boardState g)) (nat x) (nat y) c,
         consecutivePasses := 0,
         currentTurn := otherColor c\<rparr>\<rparr>"

section \<open>Sessions used as examples\<close>

definition alice :: GamePlayerData where
  "alice = \<lparr>playerId = 1, username = ''alice'', displayName = ''Alice''\<rparr>"

definition bob :: GamePlayerData where
  "bob = \<lparr>playerId = 2, username = ''bob'', displayName = ''Bob''\<rparr>"

definition settings9 :: GameSessionSettings where
  "settings9 =
     \<lparr>boardSize = 9, timeControl = None_TimeControl, timeLimit = None, handicap = 0,
      komi = 13 / 2, allowUndo = False, allowResign = True\<rparr>"

text \<open>Alice creates a 9x9 game, Bob joins, both declare themselves ready.\<close>

definition waitingSession :: GameDocument where
  "waitingSession = the (snd (createRoute ''g1'' settings9 alice 0))"

definition seatedSession :: GameDocument where
  "seatedSession = the (snd (joinRoute (Some waitingSession) bob 1))"

definition startedSession :: GameDocument where
  "startedSession =
     the (snd (readyRoute (snd (readyRoute (Some seatedSession) 1 2)) 2 3))"

text \<open>Black has played (1,0) and White the corner (0,0); Black is to move.\<close>

definition cornerSession :: GameDocument where
  "cornerSession = play [Move 1 1 0 Black 4 4, Move 2 0 0 White 5 5] startedSession"

text \<open>
  White holds (0,0) and (1,0), Black (2,0) and (0,1); the white pair has one liberty
  left, at (1,1), and Black is to move.
\<close>

definition pairSession :: GameDocument where
  "pairSession =
     play [Move 1 2 0 Black 4 4, Move 2 0 0 White 5 5, Move 1 0 1 Black 6 6,
           Move 2 1 0 White 7 7] startedSession"

text \<open>Black holds (1,0) and (0,1), White has played elsewhere; White is to move.\<close>

definition eyeSession :: GameDocument where
  "eyeSession =
     play [Move 1 1 0 Black 4 4, Move 2 4 4 White 5 5, Move 1 0 1 Black 6 6] startedSession"

text \<open>
  A game in which the ready route is called again. Black plays (4,4) and White (0,0),
  each through the move route; then Alice sends her ready request once more. Both
  players are ready, so the route calls \<^verbatim>\<open>startGame\<close>, which re-initialises the board:
  the restarted session has an empty board, the two moves in its history, and Black to
  move.
\<close>

definition movedOnceSession :: GameDocument where
  "movedOnceSession = the (snd (moveRoute (Some startedSession) 1 4 4 4 4))"

definition movedTwiceSession :: GameDocument where
  "movedTwiceSession = the (snd (moveRoute (Some movedOnceSession) 2 0 0 5 5))"

definition restartedSession :: GameDocument where
  "restartedSession = the (snd (readyRoute (Some movedTwiceSession) 1 6))"

text \<open>Black has played one stone, at (4,4); White is to move and nobody has passed.\<close>

definition oneStoneSession :: GameDocument where
  "oneStoneSession = play [Move 1 4 4 Black 4 4] startedSession"

section \<open>What a call returns and what a throw leaves behind\<close>

lemma makeMove_throw_unchanged:
  "fst (makeMove pid x y c t1 t2 g) = Inl e \<Longrightarrow> snd (makeMove pid x y c t1 t2 g) = g"
  by (auto simp add: makeMove_def Let_def split: if_splits)

lemma passTurn_throw_unchanged:
  "fst (passTurn pid c t g) = Inl e \<Longrightarrow> snd (passTurn pid c t g) = g"
  by (simp add: passTurn_def Let_def split: if_splits)

lemma makeMove_result: "fst (makeMove pid x y c t1 t2 g) = Inr v \<Longrightarrow> v"
  by (simp add: makeMove_def Let_def split: if_splits)

lemma passTurn_result: "fst (passTurn pid c t g) = Inr v \<Longrightarrow> v"
  by (simp add: passTurn_def Let_def split: if_splits)

lemma makeMove_pair_result: "makeMove pid x y c t1 t2 g = (Inr v, g') \<Longrightarrow> v"
  using makeMove_result [of pid x y c t1 t2 g v] by simp

lemma passTurn_pair_result: "passTurn pid c t g = (Inr v, g') \<Longrightarrow> v"
  using passTurn_result [of pid c t g v] by simp

lemma makeMove_accepts: "fst (makeMove pid x y c t1 t2 g) = Inr True \<longleftrightarrow> accepts x y c g"
  by (auto simp add: makeMove_def accepts_def Let_def)

lemma makeMove_commit:
  assumes "accepts x y c g"
  shows "makeMove pid x y c t1 t2 g =
     (Inr True,
      g\<lparr>boardState := (boardState g)
         \<lparr>moveHistory := moveHistory (boardState g) @ [stoneMove pid c x y t1],
          board := placeStone (board (boardState g)) (nat x) (nat y) c,
          moveCount := moveCount (boardState g) + 1,
          currentTurn := otherColor c,
          lastMove := Some \<lparr>last_x = x, last_y = y, last_color = c, last_timestamp = t2\<rparr>,
          consecutivePasses := 0\<rparr>\<rparr>)"
  using assms by (auto simp add: makeMove_def accepts_def Let_def)

section \<open>What a call leaves untouched\<close>

lemma map_update_same: "f v = f (xs ! i) \<Longrightarrow> map f (xs[i := v]) = map f xs"
  by (cases "i < length xs") (simp_all add: map_update list_update_same_conv list_update_beyond)

lemma placeStone_liberties: "map (map liberties) (placeStone b x y c) = map (map liberties) b"
  unfolding placeStone_def by (intro map_update_same) simp

lemma placeStone_groupId: "map (map groupId) (placeStone b x y c) = map (map groupId) b"
  unfolding placeStone_def by (intro map_update_same) simp

lemma placeStone_lengths: "map length (placeStone b x y c) = map length b"
  unfolding placeStone_def by (intro map_update_same) simp

lemma placeStone_other:
  "(r, k) \<noteq> (y, x) \<Longrightarrow> placeStone b x y c ! r ! k = b ! r ! k"
  unfolding placeStone_def
  by (cases "r = y"; cases "y < length b") (auto simp add: list_update_beyond)

lemma placeStone_target:
  "y < length b \<Longrightarrow> x < length (b ! y) \<Longrightarrow>
   placeStone b x y c ! y ! x = (b ! y ! x)\<lparr>stone := Some c\<rparr>"
  unfolding placeStone_def by simp

lemma passTurn_board: "board (boardState (snd (passTurn pid c t g))) = board (boardState g)"
  by (simp add: passTurn_def Let_def)

lemma passTurn_capturedStones:
  "capturedStones (boardState (snd (passTurn pid c t g))) = capturedStones (boardState g)"
  by (simp add: passTurn_def Let_def)

lemma makeMove_board:
  "board (boardState (snd (makeMove pid x y c t1 t2 g))) =
     (if accepts x y c g then placeStone (board (boardState g)) (nat x) (nat y) c
      else board (boardState g))"
  by (auto simp add: makeMove_def accepts_def Let_def)

lemma makeMove_capturedStones:
  "capturedStones (boardState (snd (makeMove pid x y c t1 t2 g))) = capturedStones (boardState g)"
  by (auto simp add: makeMove_def Let_def)

lemma step_liberties:
  "map (map liberties) (board (boardState (snd (step a g)))) =
   map (map liberties) (board (boardState g))"
  by (cases a) (simp_all add: makeMove_board passTurn_board placeStone_liberties)

lemma step_groupId:
  "map (map groupId) (board (boardState (snd (step a g)))) =
   map (map groupId) (board (boardState g))"
  by (cases a) (simp_all add: makeMove_board passTurn_board placeStone_groupId)

lemma step_capturedStones:
  "capturedStones (boardState (snd (step a g))) = capturedStones (boardState g)"
  by (cases a) (simp_all add: makeMove_capturedStones passTurn_capturedStones)

lemma play_liberties:
  "map (map liberties) (board (boardState (play as g))) =
   map (map liberties) (board (boardState g))"
  by (induction as arbitrary: g) (simp_all add: step_liberties)

lemma play_groupId:
  "map (map groupId) (board (boardState (play as g))) =
   map (map groupId) (board (boardState g))"
  by (induction as arbitrary: g) (simp_all add: step_groupId)

lemma play_capturedStones:
  "capturedStones (boardState (play as g)) = capturedStones (boardState g)"
  by (induction as arbitrary: g) (simp_all add: step_capturedStones)

text \<open>The entries a call appends to the history.\<close>

lemma step_history:
  "\<exists>ms. moveHistory (boardState (snd (step a g))) = moveHistory (boardState g) @ ms \<and>
     (\<forall>m \<in> set ms. move_capturedStones m = [])"
proof (cases a)
  case (Move pid x y c t1 t2)
  then show ?thesis
    by (auto simp add: makeMove_def Let_def stoneMove_def)
next
  case (Pass pid c t)
  then show ?thesis
    by (auto simp add: passTurn_def Let_def passMove_def)
qed

lemma play_history:
  "\<exists>ms. moveHistory (boardState (play as g)) = moveHistory (boardState g) @ ms \<and>
     (\<forall>m \<in> set ms. move_capturedStones m = [])"
proof (induction as arbitrary: g)
  case Nil
  then show ?case by simp
next
  case (Cons a as)
  obtain ms where ms: "moveHistory (boardState (snd (step a g))) = moveHistory (boardState g) @ ms"
      "\<forall>m \<in> set ms. move_capturedStones m = []"
    using step_history [of a g] by blast
  obtain ns where ns: "moveHistory (boardState (play as (snd (step a g)))) =
        moveHistory (boardState (snd (step a g))) @ ns"
      "\<forall>m \<in> set ns. move_capturedStones m = []"
    using Cons.IH [of "snd (step a g)"] by blast
  have "moveHistory (boardState (play (a # as) g)) = moveHistory (boardState g) @ (ms @ ns)"
    using ms(1) ns(1) by simp
  moreover have "\<forall>m \<in> set (ms @ ns). move_capturedStones m = []"
    using ms(2) ns(2) by auto
  ultimately show ?case by blast
qed

lemma play_history_drop:
  "\<forall>m \<in> set (drop (length (moveHistory (boardState g))) (moveHistory (boardState (play as g)))).
      move_capturedStones m = []"
  using play_history [of as g] by auto

lemma initializeBoard_capturedStones:
  "capturedStones (boardState (snd (initializeBoard g))) = capturedStones (boardState g)"
  by (simp add: initializeBoard_def setBoard_def Let_def)

lemma startGame_capturedStones:
  "capturedStones (boardState (snd (startGame now g))) = capturedStones (boardState g)"
  by (simp add: startGame_def initializeBoard_capturedStones)

lemma addPlayer_capturedStones:
  "capturedStones (boardState (snd (addPlayer pd now g))) = capturedStones (boardState g)"
  by (simp add: addPlayer_def Let_def)

lemma makeMove_players:
  "players (snd (makeMove pid x y c t1 t2 g)) = players g"
  by (auto simp add: makeMove_def Let_def)

lemma makeMove_ignores_rules:
  "makeMove pid x y c t1 t2 (g\<lparr>gameRules := r\<rparr>) =
     (fst (makeMove pid x y c t1 t2 g), (snd (makeMove pid x y c t1 t2 g))\<lparr>gameRules := r\<rparr>)"
  by (simp add: makeMove_def Let_def)

lemma otherColor_flip: "otherColor (otherColor c) = c" "otherColor c \<noteq> c"
  by (cases c; simp add: otherColor_def)+

lemma passTurn_commit:
  assumes "status g = Active" and "currentTurn (boardState g) = c"
  shows "passTurn pid c t g =
     (Inr True,
      g\<lparr>boardState := (boardState g)
           \<lparr>moveHistory := moveHistory (boardState g) @ [passMove pid c t],
            currentTurn := otherColor c,
            consecutivePasses := consecutivePasses (boardState g) + 1\<rparr>,
        status := (if 2 \<le> consecutivePasses (boardState g) + 1 then Completed else Active)\<rparr>)"
  using assms by (simp add: passTurn_def Let_def)

section \<open>The documents the routes store\<close>

lemma create_cases:
  assumes "snd (createRoute gid settings pd now) = Some g"
  shows "g = (newGame gid settings (playerId pd))\<lparr>players := [newPlayer pd Black now]\<rparr>"
    and "schemaValid g"
  using assms by (auto simp add: createRoute_def addPlayer_def newGame_def split: if_splits)

lemma join_cases:
  assumes "snd (joinRoute (Some g) pd now) = Some g'"
  shows "g' = g \<or> (status g = Waiting \<and> (\<exists>p. g' = g\<lparr>players := players g @ [p]\<rparr>))"
  using assms by (auto simp add: joinRoute_def addPlayer_def Let_def split: if_splits)

lemma ready_cases:
  assumes "snd (readyRoute (Some g) pid now) = Some g'"
  shows "g' = g \<or> g' = g\<lparr>players := markReady pid (players g)\<rparr> \<or>
         (length (markReady pid (players g)) = 2 \<and>
          startGame now (g\<lparr>players := markReady pid (players g)\<rparr>) = (Inr (), g'))"
  using assms
  by (auto simp add: readyRoute_def Let_def split: option.splits if_splits prod.splits sum.splits)

lemma move_cases:
  assumes "snd (moveRoute (Some g) pid x y t1 t2) = Some g'"
  shows "g' = g \<or> (\<exists>c. g' = snd (makeMove pid x y c t1 t2 g))"
  using assms
  by (auto simp add: moveRoute_def split: option.splits if_splits prod.splits sum.splits)
    (metis snd_conv)

lemma pass_cases:
  assumes "snd (passRoute (Some g) pid t) = Some g'"
  shows "g' = g \<or> (\<exists>c. g' = snd (passTurn pid c t g))"
  using assms
  by (auto simp add: passRoute_def split: option.splits if_splits prod.splits sum.splits)
    (metis snd_conv)

lemma resign_cases:
  assumes "snd (resignRoute (Some g) pid) = Some g'"
  shows "g' = g \<or> (status g = Active \<and> g' = g\<lparr>status := Completed\<rparr>)"
  using assms
  by (auto simp add: resignRoute_def split: option.splits if_splits)

lemma markReady_length: "length (markReady pid ps) = length ps"
  by (induction ps) simp_all

text \<open>What \<^verbatim>\<open>initializeBoard\<close> returns and builds depends on \<^verbatim>\<open>boardSize\<close> alone.\<close>

lemma initializeBoard_by_size:
  assumes "gameSettings g' = gameSettings g"
  shows "fst (initializeBoard g') = fst (initializeBoard g)"
    and "fst (initializeBoard g) = Inr () \<Longrightarrow>
         board (boardState (snd (initializeBoard g'))) = board (boardState (snd (initializeBoard g)))"
  using assms by (auto simp add: initializeBoard_def setBoard_def Let_def split: if_splits)

lemma initializeBoard_idem:
  assumes "initializeBoard g = (Inr (), g')"
  shows "fst (initializeBoard g') = Inr ()"
    and "board (boardState (snd (initializeBoard g'))) = board (boardState g')"
    and "gameSettings g' = gameSettings g" and "status g' = status g" and "players g' = players g"
    and "moveHistory (boardState g') = moveHistory (boardState g)"
    and "capturedStones (boardState g') = capturedStones (boardState g)"
  using assms by (auto simp add: initializeBoard_def setBoard_def Let_def split: if_splits)


lemma startGame_cases:
  assumes "startGame now g = (Inr (), g')"
  shows "length (players g) = 2"
    and "initializeBoard (g\<lparr>status := Active, metadata := (metadata g)\<lparr>startedAt := Some now\<rparr>\<rparr>) =
           (Inr (), g')"
  using assms by (auto simp add: startGame_def split: if_splits)

lemma passTurn_history:
  "\<exists>ms. moveHistory (boardState (snd (passTurn pid c t g))) = moveHistory (boardState g) @ ms \<and>
     (\<forall>m \<in> set ms. move_capturedStones m = [])"
  using step_history [of "Pass pid c t" g] by simp

lemma makeMove_history:
  "\<exists>ms. moveHistory (boardState (snd (makeMove pid x y c t1 t2 g))) = moveHistory (boardState g) @ ms \<and>
     (\<forall>m \<in> set ms. move_capturedStones m = [])"
  using step_history [of "Move pid x y c t1 t2" g] by simp

lemma makeMove_rest:
  "status (snd (makeMove pid x y c t1 t2 g)) = status g"
  "gameSettings (snd (makeMove pid x y c t1 t2 g)) = gameSettings g"
  by (auto simp add: makeMove_def Let_def)

lemma passTurn_rest:
  "players (snd (passTurn pid c t g)) = players g"
  "gameSettings (snd (passTurn pid c t g)) = gameSettings g"
  "status g \<noteq> Waiting \<Longrightarrow> status (snd (passTurn pid c t g)) \<noteq> Waiting"
  by (auto simp add: passTurn_def Let_def)

text \<open>
  What holds of every document the routes store: the captured counters are 0, every stone
  move of the history has an empty captured list, and once the session has left
  \<^verbatim>\<open>waiting\<close> it has two players and every cell has the \<^verbatim>\<open>liberties\<close> and
  \<^verbatim>\<open>groupId\<close> that \<^verbatim>\<open>initializeBoard\<close> gives it.
\<close>

lemma reachable_invariant:
  assumes "reachable g"
  shows "capturedStones (boardState g) = \<lparr>black = 0, white = 0\<rparr> \<and>
         (\<forall>m \<in> set (moveHistory (boardState g)). move_capturedStones m = []) \<and>
         (status g \<noteq> Waiting \<longrightarrow>
            length (players g) = 2 \<and>
            fst (initializeBoard g) = Inr () \<and>
            map (map liberties) (board (boardState g)) =
              map (map liberties) (board (boardState (snd (initializeBoard g)))) \<and>
            map (map groupId) (board (boardState g)) =
              map (map groupId) (board (boardState (snd (initializeBoard g)))))"
    (is "?inv g")
  using assms
proof (induction rule: reachable.induct)
  case (created gid settings pd now g)
  from create_cases(1) [OF created] show ?case
    by (simp add: newGame_def)
next
  case (joined g pd now g')
  from join_cases [OF joined.hyps(2)] joined.IH show ?case
    by auto
next
  case (readied g pid now g')
  from ready_cases [OF readied.hyps(2)]
  consider "g' = g" | "g' = g\<lparr>players := markReady pid (players g)\<rparr>"
    | "length (markReady pid (players g)) = 2"
      "startGame now (g\<lparr>players := markReady pid (players g)\<rparr>) = (Inr (), g')"
    by blast
  then show ?case
  proof cases
    case 1
    with readied.IH show ?thesis by simp
  next
    case 2
    have s: "gameSettings g' = gameSettings g"
      using 2 by simp
    from readied.IH 2 initializeBoard_by_size [OF s] show ?thesis
      by (auto simp add: markReady_length)
  next
    case 3
    let ?g1 = "g\<lparr>players := markReady pid (players g),
      status := Active, metadata := (metadata g)\<lparr>startedAt := Some now\<rparr>\<rparr>"
    from startGame_cases(2) [OF 3(2)] have i: "initializeBoard ?g1 = (Inr (), g')"
      by simp
    from initializeBoard_idem [OF i] readied.IH 3(1) show ?thesis
      by simp
  qed
next
  case (moved g pid x y t1 t2 g')
  from move_cases [OF moved.hyps(2)]
  consider "g' = g" | c where "g' = snd (makeMove pid x y c t1 t2 g)"
    by blast
  then show ?case
  proof cases
    case 1
    with moved.IH show ?thesis by simp
  next
    case 2
    have s: "gameSettings g' = gameSettings g"
      using 2 by (simp add: makeMove_rest)
    have b: "map (map liberties) (board (boardState g')) = map (map liberties) (board (boardState g))"
        "map (map groupId) (board (boardState g')) = map (map groupId) (board (boardState g))"
      using step_liberties [of "Move pid x y c t1 t2" g] step_groupId [of "Move pid x y c t1 t2" g] 2
      by simp_all
    from makeMove_history [of pid x y c t1 t2 g] moved.IH
    have h: "\<forall>m \<in> set (moveHistory (boardState g')). move_capturedStones m = []"
      unfolding 2 by auto
    from moved.IH h b initializeBoard_by_size [OF s] show ?thesis
      unfolding 2 by (auto simp add: makeMove_rest makeMove_players makeMove_capturedStones)
  qed
next
  case (passed g pid t g')
  from pass_cases [OF passed.hyps(2)]
  consider "g' = g" | c where "g' = snd (passTurn pid c t g)"
    by blast
  then show ?case
  proof cases
    case 1
    with passed.IH show ?thesis by simp
  next
    case 2
    have s: "gameSettings g' = gameSettings g"
      using 2 by (simp add: passTurn_rest)
    have w: "status g' \<noteq> Waiting \<Longrightarrow> status g \<noteq> Waiting"
      unfolding 2 by (auto simp add: passTurn_def Let_def split: if_splits)
    from passTurn_history [of pid c t g] passed.IH
    have h: "\<forall>m \<in> set (moveHistory (boardState g')). move_capturedStones m = []"
      unfolding 2 by auto
    from passed.IH h w initializeBoard_by_size [OF s] show ?thesis
      unfolding 2 by (auto simp add: passTurn_rest passTurn_board passTurn_capturedStones)
  qed
next
  case (resigned g pid g')
  from resign_cases [OF resigned.hyps(2)]
  consider "g' = g" | "status g = Active" "g' = g\<lparr>status := Completed\<rparr>"
    by blast
  then show ?case
  proof cases
    case 1
    with resigned.IH show ?thesis by simp
  next
    case 2
    have s: "gameSettings g' = gameSettings g"
      using 2 by simp
    from resigned.IH 2 initializeBoard_by_size [OF s] show ?thesis
      by auto
  qed
qed

text \<open>
  No route writes \<^verbatim>\<open>gameSettings\<close>, so every stored document passes the schema's
  validators, as the one first stored did.
\<close>

lemma reachable_schemaValid:
  assumes "reachable g"
  shows "schemaValid g"
  using assms
proof (induction rule: reachable.induct)
  case (created gid settings pd now g)
  then show ?case by (rule create_cases(2))
next
  case (joined g pd now g')
  from join_cases [OF joined.hyps(2)] joined.IH show ?case
    by (auto simp add: schemaValid_def)
next
  case (readied g pid now g')
  from ready_cases [OF readied.hyps(2)]
  consider "g' = g" | "g' = g\<lparr>players := markReady pid (players g)\<rparr>"
    | "startGame now (g\<lparr>players := markReady pid (players g)\<rparr>) = (Inr (), g')"
    by blast
  then show ?case
  proof cases
    case 1
    with readied.IH show ?thesis by simp
  next
    case 2
    with readied.IH show ?thesis by (simp add: schemaValid_def)
  next
    case 3
    from initializeBoard_idem(3) [OF startGame_cases(2) [OF 3]] readied.IH show ?thesis
      by (simp add: schemaValid_def)
  qed
next
  case (moved g pid x y t1 t2 g')
  from move_cases [OF moved.hyps(2)] moved.IH show ?case
    by (auto simp add: schemaValid_def makeMove_rest)
next
  case (passed g pid t g')
  from pass_cases [OF passed.hyps(2)] passed.IH show ?case
    by (auto simp add: schemaValid_def passTurn_rest)
next
  case (resigned g pid g')
  from resign_cases [OF resigned.hyps(2)] resigned.IH show ?case
    by (auto simp add: schemaValid_def)
qed

lemma routes_store:
  "snd (joinRoute (Some g) pd now) \<noteq> None"
  "snd (readyRoute (Some g) pid now) \<noteq> None"
  "snd (moveRoute (Some g) pid x y t1 t2) \<noteq> None"
  by (auto simp add: joinRoute_def readyRoute_def moveRoute_def Let_def
      split: option.splits if_splits prod.splits sum.splits)

lemma reachable_examples:
  "reachable waitingSession" "reachable seatedSession" "reachable startedSession"
  "reachable movedOnceSession" "reachable movedTwiceSession" "reachable restartedSession"
proof -
  have "snd (createRoute ''g1'' settings9 alice 0) = Some waitingSession"
    by (simp add: waitingSession_def createRoute_def addPlayer_def newGame_def schemaValid_def
        settings9_def)
  then show w: "reachable waitingSession"
    by (rule reachable.created)
  have "snd (joinRoute (Some waitingSession) bob 1) = Some seatedSession"
    using routes_store(1) [of waitingSession bob 1] by (auto simp add: seatedSession_def)
  with w show s: "reachable seatedSession"
    by (rule reachable.joined)
  obtain g1 where g1: "snd (readyRoute (Some seatedSession) 1 2) = Some g1"
    using routes_store(2) [of seatedSession 1 2] by auto
  with s have r1: "reachable g1"
    by (rule reachable.readied)
  have "snd (readyRoute (Some g1) 2 3) = Some startedSession"
    using routes_store(2) [of g1 2 3] g1 by (auto simp add: startedSession_def)
  with r1 show st: "reachable startedSession"
    by (rule reachable.readied)
  have "snd (moveRoute (Some startedSession) 1 4 4 4 4) = Some movedOnceSession"
    using routes_store(3) [of startedSession 1 4 4 4 4] by (auto simp add: movedOnceSession_def)
  with st show m1: "reachable movedOnceSession"
    by (rule reachable.moved)
  have "snd (moveRoute (Some movedOnceSession) 2 0 0 5 5) = Some movedTwiceSession"
    using routes_store(3) [of movedOnceSession 2 0 0 5 5]
    by (auto simp add: movedTwiceSession_def)
  with m1 show m2: "reachable movedTwiceSession"
    by (rule reachable.moved)
  have "snd (readyRoute (Some movedTwiceSession) 1 6) = Some restartedSession"
    using routes_store(2) [of movedTwiceSession 1 6] by (auto simp add: restartedSession_def)
  with m2 show "reachable restartedSession"
    by (rule reachable.readied)
qed

section \<open>Facts about the specification's board queries\<close>

subsection \<open>The flood fill finds the whole group\<close>

lemma spec_frontier_colour:
  "q \<in> set (spec_frontier b c ps) \<Longrightarrow> spec_stoneAt b q = Some c"
  by (auto simp add: spec_frontier_def)

lemma spec_flood_colour:
  "\<forall>q \<in> set ps. spec_stoneAt b q = Some c \<Longrightarrow>
   \<forall>q \<in> set (spec_flood n b c ps). spec_stoneAt b q = Some c"
proof (induction n arbitrary: ps)
  case 0
  then show ?case by simp
next
  case (Suc n)
  show ?case
  proof (cases "spec_frontier b c ps = []")
    case True
    with Suc.prems show ?thesis by simp
  next
    case False
    have "\<forall>q \<in> set (ps @ spec_frontier b c ps). spec_stoneAt b q = Some c"
      using Suc.prems by (auto dest: spec_frontier_colour)
    from Suc.IH [OF this] False show ?thesis
      by (simp add: Let_def)
  qed
qed

lemma spec_groupAt_colour:
  assumes "q \<in> set (spec_groupAt b p)"
  shows "spec_stoneAt b q = spec_stoneAt b p \<and> spec_stoneAt b q \<noteq> None"
proof (cases "spec_stoneAt b p")
  case None
  with assms show ?thesis
    by (simp add: spec_groupAt_def)
next
  case (Some c)
  have "\<forall>q \<in> set [p]. spec_stoneAt b q = Some c"
    using Some by simp
  from spec_flood_colour [OF this, of "sum_list (map length b)"] assms Some
  show ?thesis
    by (simp add: spec_groupAt_def)
qed

lemma spec_onBoard_snoc:
  "spec_onBoard (b @ [r]) p \<longleftrightarrow> spec_onBoard b p \<or> (snd p = length b \<and> fst p < length r)"
  by (auto simp add: spec_onBoard_def nth_append)

lemma intersections_snoc:
  "{p. spec_onBoard (b @ [r]) p} =
     {p. spec_onBoard b p} \<union> (\<lambda>x. (x, length b)) ` {..<length r}"
  by (auto simp add: spec_onBoard_snoc)

lemma intersections_count:
  "finite {p. spec_onBoard b p} \<and> card {p. spec_onBoard b p} = sum_list (map length b)"
proof (induction b rule: rev_induct)
  case Nil
  then show ?case by (simp add: spec_onBoard_def)
next
  case (snoc r b)
  have inj: "inj_on (\<lambda>x. (x, length b)) {..<length r}"
    by (simp add: inj_on_def)
  have disj: "{p. spec_onBoard b p} \<inter> (\<lambda>x. (x, length b)) ` {..<length r} = {}"
    by (auto simp add: spec_onBoard_def)
  have "card ({p. spec_onBoard b p} \<union> (\<lambda>x. (x, length b)) ` {..<length r}) =
      card {p. spec_onBoard b p} + card ((\<lambda>x. (x, length b)) ` {..<length r})"
    using snoc disj by (intro card_Un_disjoint) simp_all
  also have "\<dots> = sum_list (map length b) + length r"
    using snoc inj by (simp add: card_image)
  finally show ?case
    using snoc by (simp add: intersections_snoc)
qed

lemma spec_frontier_new:
  "set (spec_frontier b c ps) \<subseteq> {p. spec_onBoard b p} - set ps"
  "distinct (spec_frontier b c ps)"
  by (auto simp add: spec_frontier_def spec_neighbours_def)

lemma spec_flood_keeps: "set ps \<subseteq> set (spec_flood n b c ps)"
proof (induction n arbitrary: ps)
  case 0
  then show ?case by simp
next
  case (Suc n)
  from Suc [of "ps @ spec_frontier b c ps"] show ?case
    by (auto simp add: Let_def)
qed

text \<open>The fuel is enough: where the flood fill stops, no round would find another stone.\<close>

lemma spec_flood_closed:
  assumes "distinct ps" and "set ps \<subseteq> {p. spec_onBoard b p}"
    and "sum_list (map length b) \<le> length ps + n"
  shows "spec_frontier b c (spec_flood n b c ps) = []"
  using assms
proof (induction n arbitrary: ps)
  case 0
  have "card {p. spec_onBoard b p} \<le> card (set ps)"
    using 0 by (simp add: intersections_count distinct_card)
  then have "set ps = {p. spec_onBoard b p}"
    using 0(2) intersections_count [of b] by (intro card_seteq) simp_all
  with spec_frontier_new(1) [of b c ps] show ?case
    by simp
next
  case (Suc n)
  show ?case
  proof (cases "spec_frontier b c ps = []")
    case True
    then show ?thesis by simp
  next
    case False
    let ?new = "spec_frontier b c ps"
    have d: "distinct (ps @ ?new)"
      using Suc.prems(1) spec_frontier_new [of b c ps] by auto
    have s: "set (ps @ ?new) \<subseteq> {p. spec_onBoard b p}"
      using Suc.prems(2) spec_frontier_new(1) [of b c ps] by auto
    have "1 \<le> length ?new"
      using False by (cases ?new) simp_all
    then have l: "sum_list (map length b) \<le> length (ps @ ?new) + n"
      unfolding length_append using Suc.prems(3) by linarith
    from Suc.IH [OF d s l] False show ?thesis
      by (simp add: Let_def)
  qed
qed

text \<open>
  So \<open>spec_groupAt\<close> is the maximal group: it holds the stone it starts from, its
  stones have one colour (\<open>spec_groupAt_colour\<close>), and every stone of that colour
  adjacent to one of its stones is in it.
\<close>

lemma spec_groupAt_maximal:
  assumes "spec_stoneAt b p = Some c"
  shows "p \<in> set (spec_groupAt b p)"
    and "q \<in> set (spec_groupAt b p) \<Longrightarrow> r \<in> set (spec_neighbours b q) \<Longrightarrow>
         spec_stoneAt b r = Some c \<Longrightarrow> r \<in> set (spec_groupAt b p)"
proof -
  have g: "spec_groupAt b p = spec_flood (sum_list (map length b)) b c [p]"
    using assms by (simp add: spec_groupAt_def)
  show "p \<in> set (spec_groupAt b p)"
    unfolding g using spec_flood_keeps [of "[p]"] by auto
  have on: "spec_onBoard b p"
    using assms by (auto simp add: spec_stoneAt_def split: if_splits)
  have "spec_frontier b c (spec_groupAt b p) = []"
    unfolding g using on by (intro spec_flood_closed) simp_all
  then have none: "\<forall>q \<in> set (spec_groupAt b p). \<forall>r \<in> set (spec_neighbours b q).
      spec_stoneAt b r = Some c \<longrightarrow> r \<in> set (spec_groupAt b p)"
    by (auto simp add: spec_frontier_def filter_empty_conv)
  show "r \<in> set (spec_groupAt b p)"
    if "q \<in> set (spec_groupAt b p)" "r \<in> set (spec_neighbours b q)" "spec_stoneAt b r = Some c"
    using none that by blast
qed

subsection \<open>Placing a stone, seen through the queries\<close>

lemma spec_onBoard_placeStone: "spec_onBoard (placeStone b x y c) p = spec_onBoard b p"
proof -
  have "map length (placeStone b x y c) = map length b"
    by (rule placeStone_lengths)
  then have len: "length (placeStone b x y c) = length b"
    and row: "\<And>r. r < length b \<Longrightarrow> length (placeStone b x y c ! r) = length (b ! r)"
    by (auto dest: map_eq_imp_length_eq simp add: list_eq_iff_nth_eq)
  show ?thesis
    unfolding spec_onBoard_def len using row by auto
qed

lemma spec_stoneAt_placeStone:
  "spec_stoneAt (placeStone b x y c) p =
     (if p = (x, y) \<and> spec_onBoard b p then Some c else spec_stoneAt b p)"
proof (cases "p = (x, y) \<and> spec_onBoard b p")
  case True
  then have p: "p = (x, y)" and ob: "spec_onBoard b p"
    by blast+
  from ob have "y < length b" "x < length (b ! y)"
    unfolding p by (simp_all add: spec_onBoard_def)
  then have "stone (placeStone b x y c ! y ! x) = Some c"
    by (simp add: placeStone_target)
  with ob show ?thesis
    unfolding p by (simp add: spec_stoneAt_def spec_onBoard_placeStone)
next
  case False
  show ?thesis
  proof (cases "spec_onBoard b p")
    case True
    with False have "(snd p, fst p) \<noteq> (y, x)"
      by (cases p) auto
    then show ?thesis
      using False by (simp add: spec_stoneAt_def spec_onBoard_placeStone placeStone_other)
  next
    case False
    then show ?thesis
      by (simp add: spec_stoneAt_def spec_onBoard_placeStone)
  qed
qed

lemma accepts_onBoard: "accepts x y c g \<Longrightarrow> spec_onBoard (board (boardState g)) (nat x, nat y)"
  by (simp add: accepts_def spec_onBoard_def)

lemma accepts_empty: "accepts x y c g \<Longrightarrow> spec_stoneAt (board (boardState g)) (nat x, nat y) = None"
  by (simp add: accepts_def spec_stoneAt_def spec_onBoard_def)

lemma spec_stoneAt_layout:
  assumes "spec_layout b = spec_layout b'"
  shows "spec_stoneAt b p = spec_stoneAt b' p"
proof -
  from assms have len: "length b = length b'"
    unfolding spec_layout_def by (rule map_eq_imp_length_eq)
  have row: "map stone (b ! r) = map stone (b' ! r)" if "r < length b" for r
    using assms that len unfolding spec_layout_def
    by (metis nth_map)
  show ?thesis
  proof (cases "snd p < length b")
    case True
    from row [OF True] have rl: "length (b ! snd p) = length (b' ! snd p)"
      by (rule map_eq_imp_length_eq)
    show ?thesis
    proof (cases "fst p < length (b ! snd p)")
      case inside: True
      from row [OF True] inside rl have "stone (b ! snd p ! fst p) = stone (b' ! snd p ! fst p)"
        by (metis nth_map)
      with True inside rl len show ?thesis
        by (simp add: spec_stoneAt_def spec_onBoard_def)
    next
      case False
      with True rl len show ?thesis
        by (simp add: spec_stoneAt_def spec_onBoard_def)
    qed
  next
    case False
    with len show ?thesis
      by (simp add: spec_stoneAt_def spec_onBoard_def)
  qed
qed

lemma step_keeps_stones:
  "spec_stoneAt (board (boardState (snd (step a g)))) p = None \<Longrightarrow>
   spec_stoneAt (board (boardState g)) p = None"
  by (cases a) (auto simp add: makeMove_board passTurn_board spec_stoneAt_placeStone
      split: if_splits)

lemma play_keeps_stones:
  "spec_stoneAt (board (boardState (play as g))) p = None \<Longrightarrow>
   spec_stoneAt (board (boardState g)) p = None"
  by (induction as arbitrary: g) (auto dest: step_keeps_stones)

lemma positions_empty_where_final_empty:
  "bd \<in> set (positions as g) \<Longrightarrow>
   spec_stoneAt (board (boardState (play as g))) p = None \<Longrightarrow>
   spec_stoneAt bd p = None"
proof (induction as arbitrary: g)
  case Nil
  then show ?case by simp
next
  case (Cons a as)
  from Cons.prems(1) consider "bd = board (boardState g)" | "bd \<in> set (positions as (snd (step a g)))"
    by auto
  then show ?case
  proof cases
    case 1
    with Cons.prems(2) show ?thesis
      using play_keeps_stones [of "a # as" g p] by simp
  next
    case 2
    with Cons.prems(2) Cons.IH [of "snd (step a g)"] show ?thesis
      by simp
  qed
qed

lemma count_concat:
  "length (filter P (concat xss)) = sum_list (map (\<lambda>xs. length (filter P xs)) xss)"
  by (induction xss) simp_all

lemma count_update:
  assumes "i < length xs" and "\<not> P (xs ! i)"
  shows "length (filter P (xs[i := v])) = length (filter P xs) + (if P v then 1 else 0)"
proof -
  have "xs = take i xs @ xs ! i # drop (Suc i) xs"
    using assms(1) by (rule id_take_nth_drop)
  then have a: "length (filter P xs) =
      length (filter P (take i xs)) + length (filter P (drop (Suc i) xs))"
    using assms(2) by (metis filter.simps(2) filter_append length_append)
  have "xs[i := v] = take i xs @ v # drop (Suc i) xs"
    using assms(1) by (rule upd_conv_take_nth_drop)
  then have "length (filter P (xs[i := v])) =
      length (filter P (take i xs)) + (if P v then 1 else 0) + length (filter P (drop (Suc i) xs))"
    by simp
  with a show ?thesis by simp
qed

lemma sum_list_update_nat:
  fixes xs :: "nat list"
  assumes "i < length xs"
  shows "sum_list (xs[i := v]) + xs ! i = sum_list xs + v"
proof -
  have "xs = take i xs @ xs ! i # drop (Suc i) xs"
    using assms by (rule id_take_nth_drop)
  then have a: "sum_list xs = sum_list (take i xs) + xs ! i + sum_list (drop (Suc i) xs)"
    by (metis add.assoc sum_list.Cons sum_list.append)
  have "xs[i := v] = take i xs @ v # drop (Suc i) xs"
    using assms by (rule upd_conv_take_nth_drop)
  then have "sum_list (xs[i := v]) = sum_list (take i xs) + v + sum_list (drop (Suc i) xs)"
    by simp
  with a show ?thesis by simp
qed

lemma spec_stonesOnBoard_placeStone:
  assumes "y < length b" and "x < length (b ! y)" and "stone (b ! y ! x) = None"
  shows "spec_stonesOnBoard (placeStone b x y c) k =
           spec_stonesOnBoard b k + (if k = c then 1 else 0)"
proof -
  let ?P = "\<lambda>s. s = Some k"
  let ?f = "\<lambda>r. length (filter ?P (map stone r))"
  let ?r = "(b ! y)[x := (b ! y ! x)\<lparr>stone := Some c\<rparr>]"
  have total: "spec_stonesOnBoard bb k = sum_list (map ?f bb)" for bb
    by (simp add: spec_stonesOnBoard_def spec_layout_def count_concat map_concat comp_def)
  have row: "?f ?r = ?f (b ! y) + (if k = c then 1 else 0)"
  proof -
    have "map stone ?r = (map stone (b ! y))[x := Some c]"
      by (simp add: map_update)
    moreover have "length (filter ?P ((map stone (b ! y))[x := Some c])) =
        length (filter ?P (map stone (b ! y))) + (if ?P (Some c) then 1 else 0)"
      using assms(2,3) by (intro count_update) simp_all
    ultimately show ?thesis by auto
  qed
  have "map ?f (placeStone b x y c) = (map ?f b)[y := ?f ?r]"
    by (simp only: placeStone_def map_update)
  then have "sum_list (map ?f (placeStone b x y c)) + ?f (b ! y) = sum_list (map ?f b) + ?f ?r"
    using sum_list_update_nat [of y "map ?f b" "?f ?r"] assms(1) by simp
  with row show ?thesis
    by (simp add: total)
qed

section \<open>The claims about returning and throwing\<close>

text \<open>
  C10. For every input, \<^verbatim>\<open>makeMove\<close> and \<^verbatim>\<open>passTurn\<close> either throw or return
  \<^verbatim>\<open>true\<close>; neither returns \<^verbatim>\<open>false\<close>. So the branch of the move route that
  answers 400 "Invalid move" on a false return value is never taken, and neither is the
  "Cannot pass turn" branch of the pass route.
\<close>

theorem makeMove_passTurn_never_return_false:
  "((\<exists>e. fst (makeMove pid x y c t1 t2 g) = Inl e) \<or> fst (makeMove pid x y c t1 t2 g) = Inr True) \<and>
   ((\<exists>e. fst (passTurn pid c t g) = Inl e) \<or> fst (passTurn pid c t g) = Inr True) \<and>
   fst (moveRoute stored pid x y t1 t2) \<noteq> JsonError 400 ''Invalid move'' \<and>
   fst (passRoute stored pid t) \<noteq> JsonError 400 ''Cannot pass turn''"
proof -
  have m: "(\<exists>e. fst (makeMove pid x y c t1 t2 g) = Inl e) \<or> fst (makeMove pid x y c t1 t2 g) = Inr True"
    by (auto simp add: makeMove_def Let_def)
  have p: "(\<exists>e. fst (passTurn pid c t g) = Inl e) \<or> fst (passTurn pid c t g) = Inr True"
    by (auto simp add: passTurn_def Let_def)
  have mr: "fst (moveRoute stored pid x y t1 t2) \<noteq> JsonError 400 ''Invalid move''"
    by (auto simp: moveRoute_def split: option.splits prod.splits sum.splits
          dest: makeMove_pair_result)
  have pr: "fst (passRoute stored pid t) \<noteq> JsonError 400 ''Cannot pass turn''"
    by (auto simp: passRoute_def split: option.splits prod.splits sum.splits
          dest: passTurn_pair_result)
  from m p mr pr show ?thesis by blast
qed

theorem makeMove_passTurn_never_return_false_witness:
  "fst (makeMove 1 4 4 Black 4 4 startedSession) = Inr True \<and>
   fst (passTurn 1 Black 4 startedSession) = Inr True \<and>
   fst (moveRoute (Some startedSession) 1 4 4 4 4) = JsonOk 200 ''Move made successfully'' \<and>
   fst (passRoute (Some startedSession) 2 4) = JsonError 500 ''Server error passing turn''"
proof -
  have "fst (makeMove 1 4 4 Black 4 4 startedSession) = Inr True"
    by code_simp
  then have m: "\<not> (\<exists>e. fst (makeMove 1 4 4 Black 4 4 startedSession) = Inl e)"
    by simp
  have "fst (passTurn 1 Black 4 startedSession) = Inr True"
    by code_simp
  then have p: "\<not> (\<exists>e. fst (passTurn 1 Black 4 startedSession) = Inl e)"
    by simp
  have r: "fst (moveRoute (Some startedSession) 1 4 4 4 4) = JsonOk 200 ''Move made successfully''"
    by code_simp
  have q: "fst (passRoute (Some startedSession) 2 4) = JsonError 500 ''Server error passing turn''"
    by code_simp
  from m p r q
    makeMove_passTurn_never_return_false [of 1 4 4 Black 4 4 startedSession 4 "Some startedSession"]
  show ?thesis by blast
qed

text \<open>
  C5. A call of \<^verbatim>\<open>makeMove\<close> or \<^verbatim>\<open>passTurn\<close> that fails a precondition throws the
  error of that precondition (session not active, not the caller's turn, coordinates out
  of bounds, position occupied) and leaves the whole document as it was: board, move
  history, move count, current turn, consecutive-pass counter, status and every other
  field. This holds for every throw of the two methods.
\<close>

theorem rejected_call_signals_reason_and_changes_nothing:
  "(status g \<noteq> Active \<longrightarrow>
      makeMove pid x y c t1 t2 g = (Inl GameIsNotActive, g) \<and>
      passTurn pid c t g = (Inl GameIsNotActive, g)) \<and>
   (status g = Active \<and> currentTurn (boardState g) \<noteq> c \<longrightarrow>
      makeMove pid x y c t1 t2 g = (Inl NotYourTurn, g) \<and>
      passTurn pid c t g = (Inl NotYourTurn, g)) \<and>
   (status g = Active \<and> currentTurn (boardState g) = c \<and>
    (x < 0 \<or> boardSize (gameSettings g) \<le> x \<or> y < 0 \<or> boardSize (gameSettings g) \<le> y) \<longrightarrow>
      makeMove pid x y c t1 t2 g = (Inl InvalidCoordinates, g)) \<and>
   (status g = Active \<and> currentTurn (boardState g) = c \<and>
    0 \<le> x \<and> x < boardSize (gameSettings g) \<and> 0 \<le> y \<and> y < boardSize (gameSettings g) \<and>
    nat y < length (board (boardState g)) \<and> nat x < length (board (boardState g) ! nat y) \<and>
    stone (board (boardState g) ! nat y ! nat x) \<noteq> None \<longrightarrow>
      makeMove pid x y c t1 t2 g = (Inl PositionAlreadyOccupied, g)) \<and>
   (\<forall>e. fst (makeMove pid x y c t1 t2 g) = Inl e \<longrightarrow> snd (makeMove pid x y c t1 t2 g) = g) \<and>
   (\<forall>e. fst (passTurn pid c t g) = Inl e \<longrightarrow> snd (passTurn pid c t g) = g)"
proof -
  have inactive: "status g \<noteq> Active \<longrightarrow>
      makeMove pid x y c t1 t2 g = (Inl GameIsNotActive, g) \<and>
      passTurn pid c t g = (Inl GameIsNotActive, g)"
    by (simp add: makeMove_def passTurn_def Let_def)
  have turn: "status g = Active \<and> currentTurn (boardState g) \<noteq> c \<longrightarrow>
      makeMove pid x y c t1 t2 g = (Inl NotYourTurn, g) \<and>
      passTurn pid c t g = (Inl NotYourTurn, g)"
    by (simp add: makeMove_def passTurn_def Let_def)
  have bounds: "status g = Active \<and> currentTurn (boardState g) = c \<and>
    (x < 0 \<or> boardSize (gameSettings g) \<le> x \<or> y < 0 \<or> boardSize (gameSettings g) \<le> y) \<longrightarrow>
      makeMove pid x y c t1 t2 g = (Inl InvalidCoordinates, g)"
    by (simp add: makeMove_def Let_def)
  have occupied: "status g = Active \<and> currentTurn (boardState g) = c \<and>
    0 \<le> x \<and> x < boardSize (gameSettings g) \<and> 0 \<le> y \<and> y < boardSize (gameSettings g) \<and>
    nat y < length (board (boardState g)) \<and> nat x < length (board (boardState g) ! nat y) \<and>
    stone (board (boardState g) ! nat y ! nat x) \<noteq> None \<longrightarrow>
      makeMove pid x y c t1 t2 g = (Inl PositionAlreadyOccupied, g)"
    by (auto simp add: makeMove_def Let_def)
  from inactive turn bounds occupied show ?thesis
    using makeMove_throw_unchanged [of pid x y c t1 t2 g] passTurn_throw_unchanged [of pid c t g]
    by blast
qed

theorem rejected_call_signals_reason_and_changes_nothing_witness:
  "makeMove 1 4 4 Black 4 4 waitingSession = (Inl GameIsNotActive, waitingSession) \<and>
   passTurn 1 Black 4 waitingSession = (Inl GameIsNotActive, waitingSession) \<and>
   makeMove 2 4 4 White 4 4 startedSession = (Inl NotYourTurn, startedSession) \<and>
   passTurn 2 White 4 startedSession = (Inl NotYourTurn, startedSession) \<and>
   makeMove 1 9 4 Black 4 4 startedSession = (Inl InvalidCoordinates, startedSession) \<and>
   makeMove 1 0 0 Black 6 6 cornerSession = (Inl PositionAlreadyOccupied, cornerSession)"
proof -
  have h1: "status waitingSession \<noteq> Active"
    by code_simp
  have h2: "status startedSession = Active \<and> currentTurn (boardState startedSession) \<noteq> White"
    by code_simp
  have h3: "status startedSession = Active \<and> currentTurn (boardState startedSession) = Black \<and>
      boardSize (gameSettings startedSession) \<le> 9"
    by code_simp
  have h4: "status cornerSession = Active \<and> currentTurn (boardState cornerSession) = Black \<and>
      (0::int) \<le> 0 \<and> 0 < boardSize (gameSettings cornerSession) \<and>
      nat 0 < length (board (boardState cornerSession)) \<and>
      nat 0 < length (board (boardState cornerSession) ! nat 0) \<and>
      stone (board (boardState cornerSession) ! nat 0 ! nat 0) \<noteq> None"
    by code_simp
  from h1 rejected_call_signals_reason_and_changes_nothing [of waitingSession 1 4 4 Black 4 4 4]
  have a: "makeMove 1 4 4 Black 4 4 waitingSession = (Inl GameIsNotActive, waitingSession) \<and>
      passTurn 1 Black 4 waitingSession = (Inl GameIsNotActive, waitingSession)"
    by blast
  from h2 rejected_call_signals_reason_and_changes_nothing [of startedSession 2 4 4 White 4 4 4]
  have b: "makeMove 2 4 4 White 4 4 startedSession = (Inl NotYourTurn, startedSession) \<and>
      passTurn 2 White 4 startedSession = (Inl NotYourTurn, startedSession)"
    by blast
  from h3 rejected_call_signals_reason_and_changes_nothing [of startedSession 1 9 4 Black 4 4 4]
  have c: "makeMove 1 9 4 Black 4 4 startedSession = (Inl InvalidCoordinates, startedSession)"
    by blast
  from h4 rejected_call_signals_reason_and_changes_nothing [of cornerSession 1 0 0 Black 6 6 6]
  have d: "makeMove 1 0 0 Black 6 6 cornerSession = (Inl PositionAlreadyOccupied, cornerSession)"
    by blast
  from a b c d show ?thesis by blast
qed

section \<open>The claims about what an accepted move changes\<close>

text \<open>
  C9. An accepted \<^verbatim>\<open>makeMove\<close> changes the \<^verbatim>\<open>stone\<close> field of the target cell and
  the bookkeeping fields \<^verbatim>\<open>moveCount\<close>, \<^verbatim>\<open>currentTurn\<close>, \<^verbatim>\<open>lastMove\<close>,
  \<^verbatim>\<open>consecutivePasses\<close> and \<^verbatim>\<open>moveHistory\<close>, and nothing else: every other cell,
  the board's shape, the \<^verbatim>\<open>capturedStones\<close> counters and all fields outside
  \<^verbatim>\<open>boardState\<close> stay, and the entry appended to the history has an empty
  \<^verbatim>\<open>capturedStones\<close> list. Through any sequence of \<^verbatim>\<open>makeMove\<close> and \<^verbatim>\<open>passTurn\<close>
  calls every cell keeps its \<^verbatim>\<open>liberties\<close> and \<^verbatim>\<open>groupId\<close>, the counters keep
  their values, and every entry appended has an empty \<^verbatim>\<open>capturedStones\<close> list.
  The counters are 0 in a new document, and \<^verbatim>\<open>addPlayer\<close> and \<^verbatim>\<open>startGame\<close> (with
  its \<^verbatim>\<open>initializeBoard\<close>) do not write them. So in every document that the
  routes store the counters are 0, every entry of the history has an empty
  \<^verbatim>\<open>capturedStones\<close> list and, once the game has started, every cell has the
  \<^verbatim>\<open>liberties\<close> and \<^verbatim>\<open>groupId\<close> that \<^verbatim>\<open>initializeBoard\<close> gives it.
\<close>

theorem makeMove_frame:
  "(fst (makeMove pid x y c t1 t2 g) = Inr True \<longrightarrow>
      gameId (snd (makeMove pid x y c t1 t2 g)) = gameId g \<and>
      status (snd (makeMove pid x y c t1 t2 g)) = status g \<and>
      players (snd (makeMove pid x y c t1 t2 g)) = players g \<and>
      gameSettings (snd (makeMove pid x y c t1 t2 g)) = gameSettings g \<and>
      gameRules (snd (makeMove pid x y c t1 t2 g)) = gameRules g \<and>
      metadata (snd (makeMove pid x y c t1 t2 g)) = metadata g \<and>
      capturedStones (boardState (snd (makeMove pid x y c t1 t2 g))) =
        capturedStones (boardState g) \<and>
      map length (board (boardState (snd (makeMove pid x y c t1 t2 g)))) =
        map length (board (boardState g)) \<and>
      (\<forall>r k. (r, k) \<noteq> (nat y, nat x) \<longrightarrow>
         board (boardState (snd (makeMove pid x y c t1 t2 g))) ! r ! k =
         board (boardState g) ! r ! k) \<and>
      board (boardState (snd (makeMove pid x y c t1 t2 g))) ! nat y ! nat x =
        (board (boardState g) ! nat y ! nat x)\<lparr>stone := Some c\<rparr> \<and>
      (\<exists>m. moveHistory (boardState (snd (makeMove pid x y c t1 t2 g))) =
             moveHistory (boardState g) @ [m] \<and> move_capturedStones m = [])) \<and>
   map (map liberties) (board (boardState (play as g))) =
     map (map liberties) (board (boardState g)) \<and>
   map (map groupId) (board (boardState (play as g))) =
     map (map groupId) (board (boardState g)) \<and>
   capturedStones (boardState (play as g)) = capturedStones (boardState g) \<and>
   (\<forall>m \<in> set (drop (length (moveHistory (boardState g))) (moveHistory (boardState (play as g)))).
      move_capturedStones m = []) \<and>
   capturedStones (boardState (newGame gid settings creator)) = \<lparr>black = 0, white = 0\<rparr> \<and>
   capturedStones (boardState (snd (addPlayer pd now g))) = capturedStones (boardState g) \<and>
   capturedStones (boardState (snd (startGame now g))) = capturedStones (boardState g) \<and>
   (reachable g \<longrightarrow>
      capturedStones (boardState g) = \<lparr>black = 0, white = 0\<rparr> \<and>
      (\<forall>m \<in> set (moveHistory (boardState g)). move_capturedStones m = []) \<and>
      (status g \<noteq> Waiting \<longrightarrow>
         map (map liberties) (board (boardState g)) =
           map (map liberties) (board (boardState (snd (initializeBoard g)))) \<and>
         map (map groupId) (board (boardState g)) =
           map (map groupId) (board (boardState (snd (initializeBoard g))))))"
proof -
  have step: "fst (makeMove pid x y c t1 t2 g) = Inr True \<longrightarrow>
      gameId (snd (makeMove pid x y c t1 t2 g)) = gameId g \<and>
      status (snd (makeMove pid x y c t1 t2 g)) = status g \<and>
      players (snd (makeMove pid x y c t1 t2 g)) = players g \<and>
      gameSettings (snd (makeMove pid x y c t1 t2 g)) = gameSettings g \<and>
      gameRules (snd (makeMove pid x y c t1 t2 g)) = gameRules g \<and>
      metadata (snd (makeMove pid x y c t1 t2 g)) = metadata g \<and>
      capturedStones (boardState (snd (makeMove pid x y c t1 t2 g))) =
        capturedStones (boardState g) \<and>
      map length (board (boardState (snd (makeMove pid x y c t1 t2 g)))) =
        map length (board (boardState g)) \<and>
      (\<forall>r k. (r, k) \<noteq> (nat y, nat x) \<longrightarrow>
         board (boardState (snd (makeMove pid x y c t1 t2 g))) ! r ! k =
         board (boardState g) ! r ! k) \<and>
      board (boardState (snd (makeMove pid x y c t1 t2 g))) ! nat y ! nat x =
        (board (boardState g) ! nat y ! nat x)\<lparr>stone := Some c\<rparr> \<and>
      (\<exists>m. moveHistory (boardState (snd (makeMove pid x y c t1 t2 g))) =
             moveHistory (boardState g) @ [m] \<and> move_capturedStones m = [])"
  proof
    assume "fst (makeMove pid x y c t1 t2 g) = Inr True"
    then have acc: "accepts x y c g"
      by (simp add: makeMove_accepts)
    have inside: "nat y < length (board (boardState g))"
        "nat x < length (board (boardState g) ! nat y)"
      using acc by (simp_all add: accepts_def)
    note eq = makeMove_commit [OF acc, of pid t1 t2]
    show "gameId (snd (makeMove pid x y c t1 t2 g)) = gameId g \<and>
      status (snd (makeMove pid x y c t1 t2 g)) = status g \<and>
      players (snd (makeMove pid x y c t1 t2 g)) = players g \<and>
      gameSettings (snd (makeMove pid x y c t1 t2 g)) = gameSettings g \<and>
      gameRules (snd (makeMove pid x y c t1 t2 g)) = gameRules g \<and>
      metadata (snd (makeMove pid x y c t1 t2 g)) = metadata g \<and>
      capturedStones (boardState (snd (makeMove pid x y c t1 t2 g))) =
        capturedStones (boardState g) \<and>
      map length (board (boardState (snd (makeMove pid x y c t1 t2 g)))) =
        map length (board (boardState g)) \<and>
      (\<forall>r k. (r, k) \<noteq> (nat y, nat x) \<longrightarrow>
         board (boardState (snd (makeMove pid x y c t1 t2 g))) ! r ! k =
         board (boardState g) ! r ! k) \<and>
      board (boardState (snd (makeMove pid x y c t1 t2 g))) ! nat y ! nat x =
        (board (boardState g) ! nat y ! nat x)\<lparr>stone := Some c\<rparr> \<and>
      (\<exists>m. moveHistory (boardState (snd (makeMove pid x y c t1 t2 g))) =
             moveHistory (boardState g) @ [m] \<and> move_capturedStones m = [])"
      unfolding eq
      by (simp add: placeStone_lengths placeStone_other placeStone_target [OF inside]
            stoneMove_def)
  qed
  have new: "capturedStones (boardState (newGame gid settings creator)) = \<lparr>black = 0, white = 0\<rparr>"
    by (simp add: newGame_def)
  have whole: "reachable g \<longrightarrow>
      capturedStones (boardState g) = \<lparr>black = 0, white = 0\<rparr> \<and>
      (\<forall>m \<in> set (moveHistory (boardState g)). move_capturedStones m = []) \<and>
      (status g \<noteq> Waiting \<longrightarrow>
         map (map liberties) (board (boardState g)) =
           map (map liberties) (board (boardState (snd (initializeBoard g)))) \<and>
         map (map groupId) (board (boardState g)) =
           map (map groupId) (board (boardState (snd (initializeBoard g)))))"
    using reachable_invariant [of g] by blast
  from step new whole show ?thesis
    using play_liberties [of as g] play_groupId [of as g] play_capturedStones [of as g]
      play_history_drop [of g as] addPlayer_capturedStones [of pd now g]
      startGame_capturedStones [of now g]
    by blast
qed

theorem makeMove_frame_witness:
  "fst (makeMove 1 4 4 Black 4 4 startedSession) = Inr True \<and>
   players (snd (makeMove 1 4 4 Black 4 4 startedSession)) = players startedSession \<and>
   capturedStones (boardState (snd (makeMove 1 4 4 Black 4 4 startedSession))) =
     \<lparr>black = 0, white = 0\<rparr> \<and>
   board (boardState (snd (makeMove 1 4 4 Black 4 4 startedSession))) ! 0 ! 0 =
     \<lparr>stone = None, liberties = 2, groupId = None\<rparr> \<and>
   capturedStones (boardState
     (play [Move 1 1 0 Black 4 4, Move 2 0 0 White 5 5, Move 1 0 1 Black 6 6] startedSession)) =
     \<lparr>black = 0, white = 0\<rparr>"
proof -
  have h: "fst (makeMove 1 4 4 Black 4 4 startedSession) = Inr True"
    by code_simp
  have c0: "capturedStones (boardState startedSession) = \<lparr>black = 0, white = 0\<rparr>"
    using reachable_examples(3) makeMove_frame [of 1 4 4 Black 4 4 startedSession] by blast
  have b0: "board (boardState startedSession) ! 0 ! 0 = \<lparr>stone = None, liberties = 2, groupId = None\<rparr>"
    by code_simp
  have ne: "((0::nat), (0::nat)) \<noteq> (nat 4, nat 4)"
    by simp
  from h c0 b0 ne
    makeMove_frame [of 1 4 4 Black 4 4 startedSession
      "[Move 1 1 0 Black 4 4, Move 2 0 0 White 5 5, Move 1 0 1 Black 6 6]"]
  show ?thesis by metis
qed

text \<open>
  C7, as the code has it. An accepted move appends the move to the history, puts the
  stone on the board, resets the consecutive-pass counter to 0 and flips the turn to the
  opposite colour; it also adds 1 to \<^verbatim>\<open>moveCount\<close> and sets \<^verbatim>\<open>lastMove\<close> to the move.
  These six are all the changes: the rest of the document is as before.
\<close>

theorem accepted_move_commit:
  assumes "fst (makeMove pid x y c t1 t2 g) = Inr True"
  shows "snd (makeMove pid x y c t1 t2 g) =
           (spec_commit pid x y c t1 g)
             \<lparr>boardState := (boardState (spec_commit pid x y c t1 g))
                \<lparr>moveCount := moveCount (boardState g) + 1,
                 lastMove := Some \<lparr>last_x = x, last_y = y, last_color = c, last_timestamp = t2\<rparr>\<rparr>\<rparr>
         \<and> moveHistory (boardState (snd (makeMove pid x y c t1 t2 g))) =
             moveHistory (boardState g) @ [stoneMove pid c x y t1]
         \<and> board (boardState (snd (makeMove pid x y c t1 t2 g))) =
             placeStone (board (boardState g)) (nat x) (nat y) c
         \<and> stone (board (boardState (snd (makeMove pid x y c t1 t2 g))) ! nat y ! nat x) = Some c
         \<and> consecutivePasses (boardState (snd (makeMove pid x y c t1 t2 g))) = 0
         \<and> currentTurn (boardState g) = c
         \<and> currentTurn (boardState (snd (makeMove pid x y c t1 t2 g))) = otherColor c
         \<and> otherColor c \<noteq> c
         \<and> moveCount (boardState (snd (makeMove pid x y c t1 t2 g))) = moveCount (boardState g) + 1
         \<and> lastMove (boardState (snd (makeMove pid x y c t1 t2 g))) =
             Some \<lparr>last_x = x, last_y = y, last_color = c, last_timestamp = t2\<rparr>"
proof -
  have acc: "accepts x y c g"
    using assms by (simp add: makeMove_accepts)
  have inside: "nat y < length (board (boardState g))"
      "nat x < length (board (boardState g) ! nat y)"
    using acc by (simp_all add: accepts_def)
  have turn: "currentTurn (boardState g) = c"
    using acc by (simp add: accepts_def)
  have flip: "otherColor c \<noteq> c"
    by (cases c) (simp_all add: otherColor_def)
  show ?thesis
    unfolding makeMove_commit [OF acc, of pid t1 t2]
    using turn flip by (simp add: spec_commit_def placeStone_target [OF inside])
qed

theorem accepted_move_commit_witness:
  "moveCount (boardState (snd (makeMove 1 4 4 Black 4 5 startedSession))) = 1 \<and>
   lastMove (boardState (snd (makeMove 1 4 4 Black 4 5 startedSession))) =
     Some \<lparr>last_x = 4, last_y = 4, last_color = Black, last_timestamp = 5\<rparr> \<and>
   currentTurn (boardState (snd (makeMove 1 4 4 Black 4 5 startedSession))) = White \<and>
   consecutivePasses (boardState (snd (makeMove 1 4 4 Black 4 5 startedSession))) = 0"
proof -
  have h: "fst (makeMove 1 4 4 Black 4 5 startedSession) = Inr True"
    by code_simp
  have n: "moveCount (boardState startedSession) = 0"
    by code_simp
  have o: "otherColor Black = White"
    by (simp add: otherColor_def)
  note r = accepted_move_commit [OF h]
  from r have "moveCount (boardState (snd (makeMove 1 4 4 Black 4 5 startedSession))) =
      moveCount (boardState startedSession) + 1"
    by (elim conjE)
  with n have a: "moveCount (boardState (snd (makeMove 1 4 4 Black 4 5 startedSession))) = 1"
    by simp
  from r have b: "lastMove (boardState (snd (makeMove 1 4 4 Black 4 5 startedSession))) =
     Some \<lparr>last_x = 4, last_y = 4, last_color = Black, last_timestamp = 5\<rparr>"
    by (elim conjE)
  from r have "currentTurn (boardState (snd (makeMove 1 4 4 Black 4 5 startedSession))) =
      otherColor Black"
    by (elim conjE)
  with o have c: "currentTurn (boardState (snd (makeMove 1 4 4 Black 4 5 startedSession))) = White"
    by simp
  from r have d: "consecutivePasses (boardState (snd (makeMove 1 4 4 Black 4 5 startedSession))) = 0"
    by (elim conjE)
  from a b c d show ?thesis by blast
qed

text \<open>
  C7 as stated fails: after Black's first move on a started 9x9 session the document is
  not the one with the four listed changes only, since \<^verbatim>\<open>moveCount\<close> has gone from 0
  to 1 and \<^verbatim>\<open>lastMove\<close> from absent to the move.
\<close>

theorem commit_changes_moveCount_and_lastMove:
  "fst (makeMove 1 4 4 Black 4 5 startedSession) = Inr True \<and>
   snd (makeMove 1 4 4 Black 4 5 startedSession) \<noteq> spec_commit 1 4 4 Black 4 startedSession \<and>
   moveCount (boardState startedSession) = 0 \<and>
   moveCount (boardState (snd (makeMove 1 4 4 Black 4 5 startedSession))) = 1 \<and>
   lastMove (boardState startedSession) = None \<and>
   lastMove (boardState (snd (makeMove 1 4 4 Black 4 5 startedSession))) =
     Some \<lparr>last_x = 4, last_y = 4, last_color = Black, last_timestamp = 5\<rparr>"
proof -
  have h: "fst (makeMove 1 4 4 Black 4 5 startedSession) = Inr True"
    by code_simp
  have n0: "moveCount (boardState startedSession) = 0"
    by code_simp
  have n1: "moveCount (boardState (snd (makeMove 1 4 4 Black 4 5 startedSession))) = 1"
    by code_simp
  have l0: "lastMove (boardState startedSession) = None"
    by code_simp
  have l1: "lastMove (boardState (snd (makeMove 1 4 4 Black 4 5 startedSession))) =
     Some \<lparr>last_x = 4, last_y = 4, last_color = Black, last_timestamp = 5\<rparr>"
    by code_simp
  have "moveCount (boardState (spec_commit 1 4 4 Black 4 startedSession)) = 0"
    using n0 by (simp add: spec_commit_def)
  with n1 have "snd (makeMove 1 4 4 Black 4 5 startedSession) \<noteq> spec_commit 1 4 4 Black 4 startedSession"
    by auto
  with h n0 n1 l0 l1 show ?thesis by blast
qed

section \<open>The claim about joining\<close>



section \<open>The claim about passing\<close>

text \<open>
  C6, as the code has it. An accepted pass appends a pass move to the history, adds 1
  to the consecutive-pass counter and flips the turn; the status becomes \<^verbatim>\<open>completed\<close>
  when the counter reaches 2 and stays \<^verbatim>\<open>active\<close> below. So from an active session
  whose counter is 0, as it is at the start and after every stone, two consecutive passes
  by the players holding the turn complete the session. No score is computed: the
  players with their scores, the board, the captured counters and all other fields are
  after the two passes what they were before.
\<close>

theorem double_pass_completes_session:
  "(status g = Active \<and> currentTurn (boardState g) = c \<longrightarrow>
      fst (passTurn pid c t g) = Inr True \<and>
      moveHistory (boardState (snd (passTurn pid c t g))) =
        moveHistory (boardState g) @ [passMove pid c t] \<and>
      pass (passMove pid c t) \<and>
      consecutivePasses (boardState (snd (passTurn pid c t g))) =
        consecutivePasses (boardState g) + 1 \<and>
      currentTurn (boardState (snd (passTurn pid c t g))) = otherColor c \<and>
      otherColor c \<noteq> c \<and>
      status (snd (passTurn pid c t g)) =
        (if 2 \<le> consecutivePasses (boardState g) + 1 then Completed else Active)) \<and>
   (status g = Active \<and> currentTurn (boardState g) = c \<and> consecutivePasses (boardState g) = 0 \<longrightarrow>
      fst (passTurn pid' (otherColor c) t' (snd (passTurn pid c t g))) = Inr True \<and>
      snd (passTurn pid' (otherColor c) t' (snd (passTurn pid c t g))) =
        g\<lparr>boardState := (boardState g)
             \<lparr>moveHistory := moveHistory (boardState g) @
                 [passMove pid c t, passMove pid' (otherColor c) t'],
              currentTurn := c,
              consecutivePasses := 2\<rparr>,
          status := Completed\<rparr>)"
proof -
  have one: "status g = Active \<and> currentTurn (boardState g) = c \<longrightarrow>
      fst (passTurn pid c t g) = Inr True \<and>
      moveHistory (boardState (snd (passTurn pid c t g))) =
        moveHistory (boardState g) @ [passMove pid c t] \<and>
      pass (passMove pid c t) \<and>
      consecutivePasses (boardState (snd (passTurn pid c t g))) =
        consecutivePasses (boardState g) + 1 \<and>
      currentTurn (boardState (snd (passTurn pid c t g))) = otherColor c \<and>
      otherColor c \<noteq> c \<and>
      status (snd (passTurn pid c t g)) =
        (if 2 \<le> consecutivePasses (boardState g) + 1 then Completed else Active)"
    by (simp add: passTurn_commit passMove_def otherColor_flip)
  have two: "status g = Active \<and> currentTurn (boardState g) = c \<and>
      consecutivePasses (boardState g) = 0 \<longrightarrow>
      fst (passTurn pid' (otherColor c) t' (snd (passTurn pid c t g))) = Inr True \<and>
      snd (passTurn pid' (otherColor c) t' (snd (passTurn pid c t g))) =
        g\<lparr>boardState := (boardState g)
             \<lparr>moveHistory := moveHistory (boardState g) @
                 [passMove pid c t, passMove pid' (otherColor c) t'],
              currentTurn := c,
              consecutivePasses := 2\<rparr>,
          status := Completed\<rparr>"
  proof
    assume a: "status g = Active \<and> currentTurn (boardState g) = c \<and>
      consecutivePasses (boardState g) = 0"
    let ?g1 = "snd (passTurn pid c t g)"
    have g1: "?g1 = g\<lparr>boardState := (boardState g)
           \<lparr>moveHistory := moveHistory (boardState g) @ [passMove pid c t],
            currentTurn := otherColor c,
            consecutivePasses := 1\<rparr>\<rparr>"
      using a by (simp add: passTurn_commit)
    have s1: "status ?g1 = Active" "currentTurn (boardState ?g1) = otherColor c"
      unfolding g1 using a by simp_all
    show "fst (passTurn pid' (otherColor c) t' ?g1) = Inr True \<and>
      snd (passTurn pid' (otherColor c) t' ?g1) =
        g\<lparr>boardState := (boardState g)
             \<lparr>moveHistory := moveHistory (boardState g) @
                 [passMove pid c t, passMove pid' (otherColor c) t'],
              currentTurn := c,
              consecutivePasses := 2\<rparr>,
          status := Completed\<rparr>"
      unfolding passTurn_commit [OF s1]
      unfolding g1 by (simp add: otherColor_flip)
  qed
  from one two show ?thesis by blast
qed

theorem double_pass_completes_session_witness:
  "status (snd (passTurn 1 Black 6 (snd (passTurn 2 White 5 oneStoneSession)))) = Completed \<and>
   players (snd (passTurn 1 Black 6 (snd (passTurn 2 White 5 oneStoneSession)))) =
     players oneStoneSession \<and>
   consecutivePasses (boardState (snd (passTurn 2 White 5 oneStoneSession))) = 1 \<and>
   status (snd (passTurn 2 White 5 oneStoneSession)) = Active"
proof -
  have h: "status oneStoneSession = Active \<and> currentTurn (boardState oneStoneSession) = White \<and>
      consecutivePasses (boardState oneStoneSession) = 0"
    by code_simp
  have o: "otherColor White = Black"
    by (simp add: otherColor_def)
  note t = double_pass_completes_session [of oneStoneSession White 2 5 1 6]
  from h t have "consecutivePasses (boardState (snd (passTurn 2 White 5 oneStoneSession))) =
      consecutivePasses (boardState oneStoneSession) + 1"
    by blast
  with h have a: "consecutivePasses (boardState (snd (passTurn 2 White 5 oneStoneSession))) = 1"
    by simp
  from h t have "status (snd (passTurn 2 White 5 oneStoneSession)) =
      (if 2 \<le> consecutivePasses (boardState oneStoneSession) + 1 then Completed else Active)"
    by blast
  with h have b: "status (snd (passTurn 2 White 5 oneStoneSession)) = Active"
    by simp
  from h t have "snd (passTurn 1 (otherColor White) 6 (snd (passTurn 2 White 5 oneStoneSession))) =
        oneStoneSession\<lparr>boardState := (boardState oneStoneSession)
             \<lparr>moveHistory := moveHistory (boardState oneStoneSession) @
                 [passMove 2 White 5, passMove 1 (otherColor White) 6],
              currentTurn := White,
              consecutivePasses := 2\<rparr>,
          status := Completed\<rparr>"
    by blast
  then have c: "status (snd (passTurn 1 Black 6 (snd (passTurn 2 White 5 oneStoneSession)))) = Completed"
     "players (snd (passTurn 1 Black 6 (snd (passTurn 2 White 5 oneStoneSession)))) =
       players oneStoneSession"
    unfolding o by simp_all
  from a b c show ?thesis by blast
qed

text \<open>
  C6 as stated fails on the scoring result. Black has one stone on the board and both
  players pass. The session is completed, but the \<^verbatim>\<open>score\<close> fields of the two players
  are what they were, 0 and 0, while either scoring method of the specification gives
  Black at least the stones on the board, 1.
\<close>

theorem double_pass_computes_no_score:
  "status (play [Pass 2 White 5, Pass 1 Black 6] oneStoneSession) = Completed \<and>
   map color (players (play [Pass 2 White 5, Pass 1 Black 6] oneStoneSession)) = [Black, White] \<and>
   map score (players (play [Pass 2 White 5, Pass 1 Black 6] oneStoneSession)) = [0, 0] \<and>
   map score (players oneStoneSession) = [0, 0] \<and>
   spec_stonesOnBoard (board (boardState (play [Pass 2 White 5, Pass 1 Black 6] oneStoneSession)))
     Black = 1"
  by code_simp

section \<open>The claims about captures, liberties, ko and suicide\<close>

text \<open>
  C1, as the code has it. An accepted placement removes no stone: after it the target
  holds the mover's stone and every other intersection holds what it held before, also
  when the stone takes the last liberty of an adjacent opposing group. The move is
  recorded with an empty captured list, and neither the session's \<^verbatim>\<open>capturedStones\<close>
  counters nor the players' change: no capture is credited.
\<close>

theorem placement_captures_nothing:
  assumes "fst (makeMove pid x y c t1 t2 g) = Inr True"
  shows "(\<forall>p. spec_stoneAt (board (boardState (snd (makeMove pid x y c t1 t2 g)))) p =
            (if p = (nat x, nat y) then Some c else spec_stoneAt (board (boardState g)) p)) \<and>
         move_capturedStones (last (moveHistory (boardState (snd (makeMove pid x y c t1 t2 g))))) =
           [] \<and>
         capturedStones (boardState (snd (makeMove pid x y c t1 t2 g))) =
           capturedStones (boardState g) \<and>
         map player_capturedStones (players (snd (makeMove pid x y c t1 t2 g))) =
           map player_capturedStones (players g)"
proof -
  have acc: "accepts x y c g"
    using assms by (simp add: makeMove_accepts)
  have b: "board (boardState (snd (makeMove pid x y c t1 t2 g))) =
      placeStone (board (boardState g)) (nat x) (nat y) c"
    using acc by (simp add: makeMove_board)
  have stones: "\<forall>p. spec_stoneAt (board (boardState (snd (makeMove pid x y c t1 t2 g)))) p =
            (if p = (nat x, nat y) then Some c else spec_stoneAt (board (boardState g)) p)"
    unfolding b using accepts_onBoard [OF acc] by (simp add: spec_stoneAt_placeStone)
  have hist: "move_capturedStones
      (last (moveHistory (boardState (snd (makeMove pid x y c t1 t2 g))))) = []"
    unfolding makeMove_commit [OF acc, of pid t1 t2] by (simp add: stoneMove_def)
  from stones hist show ?thesis
    by (simp add: makeMove_capturedStones makeMove_players)
qed

theorem placement_captures_nothing_witness:
  "spec_stoneAt (board (boardState (snd (makeMove 1 0 1 Black 6 6 cornerSession)))) (0, 1) =
     Some Black \<and>
   spec_stoneAt (board (boardState (snd (makeMove 1 0 1 Black 6 6 cornerSession)))) (0, 0) =
     Some White \<and>
   capturedStones (boardState (snd (makeMove 1 0 1 Black 6 6 cornerSession))) =
     \<lparr>black = 0, white = 0\<rparr>"
proof -
  have h: "fst (makeMove 1 0 1 Black 6 6 cornerSession) = Inr True"
    by code_simp
  have w: "spec_stoneAt (board (boardState cornerSession)) (0, 0) = Some White"
    by code_simp
  have k: "capturedStones (boardState cornerSession) = \<lparr>black = 0, white = 0\<rparr>"
    by code_simp
  note t = placement_captures_nothing [OF h]
  from t have "spec_stoneAt (board (boardState (snd (makeMove 1 0 1 Black 6 6 cornerSession)))) (0, 1) =
      (if ((0::nat), (1::nat)) = (nat 0, nat 1) then Some Black
       else spec_stoneAt (board (boardState cornerSession)) (0, 1))"
    by blast
  then have a: "spec_stoneAt (board (boardState (snd (makeMove 1 0 1 Black 6 6 cornerSession)))) (0, 1) =
     Some Black"
    by simp
  from t have "spec_stoneAt (board (boardState (snd (makeMove 1 0 1 Black 6 6 cornerSession)))) (0, 0) =
      (if ((0::nat), (0::nat)) = (nat 0, nat 1) then Some Black
       else spec_stoneAt (board (boardState cornerSession)) (0, 0))"
    by blast
  with w have b: "spec_stoneAt (board (boardState (snd (makeMove 1 0 1 Black 6 6 cornerSession)))) (0, 0) =
     Some White"
    by simp
  from t k have c: "capturedStones (boardState (snd (makeMove 1 0 1 Black 6 6 cornerSession))) =
     \<lparr>black = 0, white = 0\<rparr>"
    by simp
  from a b c show ?thesis by blast
qed

text \<open>
  C1 as stated fails. White's single stone in the corner (0,0) has one liberty left, at
  (0,1); Black plays there and the move is accepted. The specification's \<^verbatim>\<open>place\<close>
  captures the stone at (0,0). After \<^verbatim>\<open>makeMove\<close> the white stone is still on the board,
  with no liberty, the move's captured list is empty and all capture counters are 0.
\<close>

theorem surrounded_stone_is_not_captured:
  "spec_groupAt (board (boardState cornerSession)) (0, 0) = [(0, 0)] \<and>
   spec_stoneAt (board (boardState cornerSession)) (0, 0) = Some White \<and>
   spec_liberties (board (boardState cornerSession)) (0, 0) = [(0, 1)] \<and>
   map_option snd (spec_place (board (boardState cornerSession)) Black (0, 1)) = Some [(0, 0)] \<and>
   fst (makeMove 1 0 1 Black 6 6 cornerSession) = Inr True \<and>
   spec_stoneAt (board (boardState (snd (makeMove 1 0 1 Black 6 6 cornerSession)))) (0, 0) =
     Some White \<and>
   spec_libertyCount (board (boardState (snd (makeMove 1 0 1 Black 6 6 cornerSession)))) (0, 0) = 0 \<and>
   move_capturedStones
     (last (moveHistory (boardState (snd (makeMove 1 0 1 Black 6 6 cornerSession))))) = [] \<and>
   capturedStones (boardState (snd (makeMove 1 0 1 Black 6 6 cornerSession))) =
     \<lparr>black = 0, white = 0\<rparr> \<and>
   map player_capturedStones (players (snd (makeMove 1 0 1 Black 6 6 cornerSession))) = [0, 0]"
  by code_simp

text \<open>
  C2, as the code has it. \<^verbatim>\<open>makeMove\<close> accepts a move exactly when the session is
  active, it is the mover's turn, the coordinates are in bounds and the target cell
  exists and is empty: a move that passes these checks is accepted whatever the liberties
  of any group, and no other move is. The resulting
  board is the previous one with the placed stone added: every stone of every group of
  the previous board is still there, the mover's colour has one stone more and the other
  colour as many as before. So a group that the move leaves with zero liberties (by
  flood fill) stays on the board.
\<close>

theorem accepted_move_takes_no_group_off:
  "(fst (makeMove pid x y c t1 t2 g) = Inr True \<longleftrightarrow>
      status g = Active \<and> currentTurn (boardState g) = c \<and>
      0 \<le> x \<and> x < boardSize (gameSettings g) \<and> 0 \<le> y \<and> y < boardSize (gameSettings g) \<and>
      nat y < length (board (boardState g)) \<and> nat x < length (board (boardState g) ! nat y) \<and>
      stone (board (boardState g) ! nat y ! nat x) = None) \<and>
   (fst (makeMove pid x y c t1 t2 g) = Inr True \<longrightarrow>
      (\<forall>p q. q \<in> set (spec_groupAt (board (boardState g)) p) \<longrightarrow>
         spec_stoneAt (board (boardState (snd (makeMove pid x y c t1 t2 g)))) q =
           spec_stoneAt (board (boardState g)) p \<and>
         spec_stoneAt (board (boardState g)) p \<noteq> None) \<and>
      spec_stonesOnBoard (board (boardState (snd (makeMove pid x y c t1 t2 g)))) c =
        spec_stonesOnBoard (board (boardState g)) c + 1 \<and>
      spec_stonesOnBoard (board (boardState (snd (makeMove pid x y c t1 t2 g)))) (otherColor c) =
        spec_stonesOnBoard (board (boardState g)) (otherColor c))"
proof -
  have checks: "fst (makeMove pid x y c t1 t2 g) = Inr True \<longleftrightarrow>
      status g = Active \<and> currentTurn (boardState g) = c \<and>
      0 \<le> x \<and> x < boardSize (gameSettings g) \<and> 0 \<le> y \<and> y < boardSize (gameSettings g) \<and>
      nat y < length (board (boardState g)) \<and> nat x < length (board (boardState g) ! nat y) \<and>
      stone (board (boardState g) ! nat y ! nat x) = None"
    unfolding makeMove_accepts accepts_def ..
  have kept: "(\<forall>p q. q \<in> set (spec_groupAt (board (boardState g)) p) \<longrightarrow>
         spec_stoneAt (board (boardState (snd (makeMove pid x y c t1 t2 g)))) q =
           spec_stoneAt (board (boardState g)) p \<and>
         spec_stoneAt (board (boardState g)) p \<noteq> None) \<and>
      spec_stonesOnBoard (board (boardState (snd (makeMove pid x y c t1 t2 g)))) c =
        spec_stonesOnBoard (board (boardState g)) c + 1 \<and>
      spec_stonesOnBoard (board (boardState (snd (makeMove pid x y c t1 t2 g)))) (otherColor c) =
        spec_stonesOnBoard (board (boardState g)) (otherColor c)"
    if ok: "fst (makeMove pid x y c t1 t2 g) = Inr True"
  proof -
    have acc: "accepts x y c g"
      using ok by (simp add: makeMove_accepts)
    have b: "board (boardState (snd (makeMove pid x y c t1 t2 g))) =
        placeStone (board (boardState g)) (nat x) (nat y) c"
      using acc by (simp add: makeMove_board)
    have inside: "nat y < length (board (boardState g))"
        "nat x < length (board (boardState g) ! nat y)"
        "stone (board (boardState g) ! nat y ! nat x) = None"
      using acc by (simp_all add: accepts_def)
    have groups: "spec_stoneAt (board (boardState (snd (makeMove pid x y c t1 t2 g)))) q =
                spec_stoneAt (board (boardState g)) p \<and>
              spec_stoneAt (board (boardState g)) p \<noteq> None"
      if q: "q \<in> set (spec_groupAt (board (boardState g)) p)" for p q
    proof -
      from spec_groupAt_colour [OF q]
      have col: "spec_stoneAt (board (boardState g)) q = spec_stoneAt (board (boardState g)) p"
        and occ: "spec_stoneAt (board (boardState g)) q \<noteq> None"
        by blast+
      from occ accepts_empty [OF acc] have "q \<noteq> (nat x, nat y)"
        by auto
      with col occ show ?thesis
        unfolding b by (simp add: spec_stoneAt_placeStone)
    qed
    have flip: "otherColor c \<noteq> c"
      by (cases c) (simp_all add: otherColor_def)
    from groups flip show ?thesis
      unfolding b by (simp add: spec_stonesOnBoard_placeStone [OF inside])
  qed
  from checks kept show ?thesis by blast
qed

theorem accepted_move_takes_no_group_off_witness:
  "fst (makeMove 1 1 1 Black 8 8 pairSession) = Inr True \<and>
   spec_stoneAt (board (boardState (snd (makeMove 1 1 1 Black 8 8 pairSession)))) (1, 0) =
     Some White \<and>
   spec_stonesOnBoard (board (boardState (snd (makeMove 1 1 1 Black 8 8 pairSession)))) Black = 3 \<and>
   spec_stonesOnBoard (board (boardState (snd (makeMove 1 1 1 Black 8 8 pairSession)))) White = 2 \<and>
   fst (makeMove 1 0 0 Black 8 8 pairSession) \<noteq> Inr True"
proof -
  have checks: "status pairSession = Active \<and> currentTurn (boardState pairSession) = Black \<and>
      (0::int) \<le> 1 \<and> 1 < boardSize (gameSettings pairSession) \<and>
      nat 1 < length (board (boardState pairSession)) \<and>
      nat 1 < length (board (boardState pairSession) ! nat 1) \<and>
      stone (board (boardState pairSession) ! nat 1 ! nat 1) = None"
    by code_simp
  have taken: "stone (board (boardState pairSession) ! nat 0 ! nat 0) \<noteq> None"
    by code_simp
  have grp: "(1, 0) \<in> set (spec_groupAt (board (boardState pairSession)) (0, 0))"
    by code_simp
  have w: "spec_stoneAt (board (boardState pairSession)) (0, 0) = Some White"
    by code_simp
  have n: "spec_stonesOnBoard (board (boardState pairSession)) Black = 2"
      "spec_stonesOnBoard (board (boardState pairSession)) White = 2"
    by code_simp+
  have o: "otherColor Black = White"
    by (simp add: otherColor_def)
  note t = accepted_move_takes_no_group_off [of 1 1 1 Black 8 8 pairSession]
  from checks t have h: "fst (makeMove 1 1 1 Black 8 8 pairSession) = Inr True"
    by blast
  from taken accepted_move_takes_no_group_off [of 1 0 0 Black 8 8 pairSession]
  have r: "fst (makeMove 1 0 0 Black 8 8 pairSession) \<noteq> Inr True"
    by auto
  from h t grp have "spec_stoneAt (board (boardState (snd (makeMove 1 1 1 Black 8 8 pairSession)))) (1, 0) =
      spec_stoneAt (board (boardState pairSession)) (0, 0)"
    by blast
  with w have a: "spec_stoneAt (board (boardState (snd (makeMove 1 1 1 Black 8 8 pairSession)))) (1, 0) =
     Some White"
    by simp
  from h t have "spec_stonesOnBoard (board (boardState (snd (makeMove 1 1 1 Black 8 8 pairSession)))) Black =
      spec_stonesOnBoard (board (boardState pairSession)) Black + 1"
    by blast
  with n have b: "spec_stonesOnBoard (board (boardState (snd (makeMove 1 1 1 Black 8 8 pairSession)))) Black = 3"
    by simp
  from h t have "spec_stonesOnBoard (board (boardState (snd (makeMove 1 1 1 Black 8 8 pairSession))))
      (otherColor Black) = spec_stonesOnBoard (board (boardState pairSession)) (otherColor Black)"
    by blast
  with n o have c: "spec_stonesOnBoard (board (boardState (snd (makeMove 1 1 1 Black 8 8 pairSession)))) White = 2"
    by simp
  from h a b c r show ?thesis by blast
qed

text \<open>
  C2 as stated fails. White's stones at (0,0) and (1,0) form one group whose last
  liberty is (1,1); Black plays there and the move is accepted. On the resulting board
  the flood fill from (0,0) finds the two white stones and no liberty: a group with
  liberty count 0 has survived an accepted move. (The stored \<^verbatim>\<open>liberties\<close> field of
  the corner cell still reads 2, its value from \<^verbatim>\<open>initializeBoard\<close>.)
\<close>

theorem zero_liberty_group_survives_move:
  "spec_libertyCount (board (boardState pairSession)) (0, 0) = 1 \<and>
   fst (makeMove 1 1 1 Black 8 8 pairSession) = Inr True \<and>
   spec_stoneAt (board (boardState (snd (makeMove 1 1 1 Black 8 8 pairSession)))) (0, 0) =
     Some White \<and>
   spec_groupAt (board (boardState (snd (makeMove 1 1 1 Black 8 8 pairSession)))) (0, 0) =
     [(0, 0), (1, 0)] \<and>
   spec_libertyCount (board (boardState (snd (makeMove 1 1 1 Black 8 8 pairSession)))) (0, 0) = 0 \<and>
   \<not> 1 \<le> spec_libertyCount (board (boardState (snd (makeMove 1 1 1 Black 8 8 pairSession)))) (0, 0) \<and>
   liberties (board (boardState (snd (makeMove 1 1 1 Black 8 8 pairSession))) ! 0 ! 0) = 2"
  by code_simp

text \<open>
  C4, as the code has it. \<^verbatim>\<open>makeMove\<close> never reads \<^verbatim>\<open>suicideAllowed\<close>: a move that
  passes the checks on status, turn, bounds and occupancy is accepted and its stone
  placed when the flag is false and when it is true, whatever liberties the placing
  colour's group is left with and whether or not anything would be captured.
\<close>

theorem suicide_accepted_under_either_rule:
  assumes "accepts x y c g"
  shows "fst (makeMove pid x y c t1 t2 (g\<lparr>gameRules := (gameRules g)\<lparr>suicideAllowed := s\<rparr>\<rparr>)) =
           Inr True \<and>
         spec_stoneAt (board (boardState
           (snd (makeMove pid x y c t1 t2 (g\<lparr>gameRules := (gameRules g)\<lparr>suicideAllowed := s\<rparr>\<rparr>)))))
           (nat x, nat y) = Some c"
proof -
  have ok: "fst (makeMove pid x y c t1 t2 g) = Inr True"
    using assms by (simp add: makeMove_accepts)
  have "spec_stoneAt (board (boardState (snd (makeMove pid x y c t1 t2 g)))) (nat x, nat y) = Some c"
    using assms accepts_onBoard [OF assms]
    by (simp add: makeMove_board spec_stoneAt_placeStone)
  with ok show ?thesis
    by (simp add: makeMove_ignores_rules)
qed

theorem suicide_accepted_under_either_rule_witness:
  "fst (makeMove 2 0 0 White 8 8
      (eyeSession\<lparr>gameRules := (gameRules eyeSession)\<lparr>suicideAllowed := False\<rparr>\<rparr>)) = Inr True \<and>
   fst (makeMove 2 0 0 White 8 8
      (eyeSession\<lparr>gameRules := (gameRules eyeSession)\<lparr>suicideAllowed := True\<rparr>\<rparr>)) = Inr True"
proof -
  have h: "accepts 0 0 White eyeSession"
    by code_simp
  from suicide_accepted_under_either_rule [OF h, of 2 8 8 False]
    suicide_accepted_under_either_rule [OF h, of 2 8 8 True]
  show ?thesis by blast
qed

text \<open>
  C4 as stated fails on its first half. Black holds (1,0) and (0,1), and the session has
  the default \<^verbatim>\<open>suicideAllowed = false\<close>. White plays the corner (0,0): the stone is
  alone in its group, has no liberty and captures nothing, since no adjacent black group
  is without liberties. \<^verbatim>\<open>makeMove\<close> accepts the move.
\<close>

theorem suicide_is_not_rejected:
  "status eyeSession = Active \<and>
   \<not> suicideAllowed (gameRules eyeSession) \<and>
   fst (makeMove 2 0 0 White 8 8 eyeSession) = Inr True \<and>
   spec_groupAt (board (boardState (snd (makeMove 2 0 0 White 8 8 eyeSession)))) (0, 0) = [(0, 0)] \<and>
   spec_libertyCount (board (boardState (snd (makeMove 2 0 0 White 8 8 eyeSession)))) (0, 0) = 0 \<and>
   spec_captured (board (boardState (snd (makeMove 2 0 0 White 8 8 eyeSession)))) White (0, 0) = [] \<and>
   map_option snd (spec_place (board (boardState eyeSession)) White (0, 0)) = Some []"
  by code_simp

text \<open>
  C3, as the code has it. \<^verbatim>\<open>makeMove\<close> makes no ko check. It never reads \<^verbatim>\<open>koRule\<close>
  or compares boards: under \<^verbatim>\<open>standard\<close> and under \<^verbatim>\<open>superko\<close> it returns or throws
  the same, it accepts a move exactly when the session is active, it is the mover's
  turn, the coordinates are in bounds and the target cell exists and is empty, and what
  it throws is one of "Game is not active", "Not your turn", "Invalid coordinates",
  "Position already occupied" or a \<open>TypeError\<close>, never a ko violation. So a move that
  brings back an earlier position is accepted like any other. Within a sequence of
  \<^verbatim>\<open>makeMove\<close> and \<^verbatim>\<open>passTurn\<close> calls no move does, since these calls never remove
  a stone: the stone layout after an accepted move differs from the layout of every
  board of the sequence.
\<close>

theorem makeMove_makes_no_ko_check:
  "makeMove pid x y c t1 t2 (g\<lparr>gameRules := (gameRules g)\<lparr>koRule := k\<rparr>\<rparr>) =
     (fst (makeMove pid x y c t1 t2 g),
      (snd (makeMove pid x y c t1 t2 g))\<lparr>gameRules := (gameRules g)\<lparr>koRule := k\<rparr>\<rparr>) \<and>
   (fst (makeMove pid x y c t1 t2 (g\<lparr>gameRules := (gameRules g)\<lparr>koRule := k\<rparr>\<rparr>)) = Inr True \<longleftrightarrow>
      status g = Active \<and> currentTurn (boardState g) = c \<and>
      0 \<le> x \<and> x < boardSize (gameSettings g) \<and> 0 \<le> y \<and> y < boardSize (gameSettings g) \<and>
      nat y < length (board (boardState g)) \<and> nat x < length (board (boardState g) ! nat y) \<and>
      stone (board (boardState g) ! nat y ! nat x) = None) \<and>
   (\<forall>e. fst (makeMove pid x y c t1 t2 g) = Inl e \<longrightarrow>
      e \<in> {GameIsNotActive, NotYourTurn, InvalidCoordinates, TypeError, PositionAlreadyOccupied}) \<and>
   (fst (makeMove pid x y c t1 t2 (play as g)) = Inr True \<longrightarrow>
      spec_layout (board (boardState (snd (makeMove pid x y c t1 t2 (play as g))))) \<notin>
        set (map spec_layout (positions as g)))"
proof -
  have checks: "fst (makeMove pid x y c t1 t2 (g\<lparr>gameRules := (gameRules g)\<lparr>koRule := k\<rparr>\<rparr>)) =
        Inr True \<longleftrightarrow>
      status g = Active \<and> currentTurn (boardState g) = c \<and>
      0 \<le> x \<and> x < boardSize (gameSettings g) \<and> 0 \<le> y \<and> y < boardSize (gameSettings g) \<and>
      nat y < length (board (boardState g)) \<and> nat x < length (board (boardState g) ! nat y) \<and>
      stone (board (boardState g) ! nat y ! nat x) = None"
    unfolding makeMove_ignores_rules fst_conv makeMove_accepts accepts_def ..
  have errs: "\<forall>e. fst (makeMove pid x y c t1 t2 g) = Inl e \<longrightarrow>
      e \<in> {GameIsNotActive, NotYourTurn, InvalidCoordinates, TypeError, PositionAlreadyOccupied}"
    by (auto simp add: makeMove_def Let_def split: if_splits)
  have fresh: "spec_layout (board (boardState (snd (makeMove pid x y c t1 t2 (play as g))))) \<notin>
        set (map spec_layout (positions as g))"
    if ok: "fst (makeMove pid x y c t1 t2 (play as g)) = Inr True"
  proof
    let ?b' = "board (boardState (snd (makeMove pid x y c t1 t2 (play as g))))"
    assume "spec_layout ?b' \<in> set (map spec_layout (positions as g))"
    then obtain bd where bd: "bd \<in> set (positions as g)" "spec_layout ?b' = spec_layout bd"
      by auto
    have acc: "accepts x y c (play as g)"
      using ok by (simp add: makeMove_accepts)
    have "spec_stoneAt bd (nat x, nat y) = None"
      using positions_empty_where_final_empty [OF bd(1) accepts_empty [OF acc]] .
    moreover have "spec_stoneAt ?b' (nat x, nat y) = Some c"
      using acc accepts_onBoard [OF acc] by (simp add: makeMove_board spec_stoneAt_placeStone)
    ultimately show False
      using spec_stoneAt_layout [OF bd(2), of "(nat x, nat y)"] by simp
  qed
  from checks errs fresh makeMove_ignores_rules [of pid x y c t1 t2 "(gameRules g)\<lparr>koRule := k\<rparr>" g]
  show ?thesis by blast
qed

theorem makeMove_makes_no_ko_check_witness:
  "fst (makeMove 1 4 4 Black 7 7
      (restartedSession\<lparr>gameRules := (gameRules restartedSession)\<lparr>koRule := Superko\<rparr>\<rparr>)) =
     Inr True \<and>
   spec_layout (board (boardState (snd (makeMove 1 1 1 Black 6 6
       (play [Move 1 4 4 Black 4 4, Move 2 0 0 White 5 5] startedSession))))) \<notin>
     set (map spec_layout (positions [Move 1 4 4 Black 4 4, Move 2 0 0 White 5 5] startedSession))"
proof -
  have checks: "status restartedSession = Active \<and>
      currentTurn (boardState restartedSession) = Black \<and>
      (0::int) \<le> 4 \<and> 4 < boardSize (gameSettings restartedSession) \<and>
      nat 4 < length (board (boardState restartedSession)) \<and>
      nat 4 < length (board (boardState restartedSession) ! nat 4) \<and>
      stone (board (boardState restartedSession) ! nat 4 ! nat 4) = None"
    by code_simp
  have h: "fst (makeMove 1 1 1 Black 6 6
      (play [Move 1 4 4 Black 4 4, Move 2 0 0 White 5 5] startedSession)) = Inr True"
    by code_simp
  from checks makeMove_makes_no_ko_check [of 1 4 4 Black 7 7 Superko restartedSession]
  have a: "fst (makeMove 1 4 4 Black 7 7
      (restartedSession\<lparr>gameRules := (gameRules restartedSession)\<lparr>koRule := Superko\<rparr>\<rparr>)) =
     Inr True"
    by blast
  from h makeMove_makes_no_ko_check [of 1 1 1 Black 6 6 Standard startedSession
      "[Move 1 4 4 Black 4 4, Move 2 0 0 White 5 5]"]
  have b: "spec_layout (board (boardState (snd (makeMove 1 1 1 Black 6 6
       (play [Move 1 4 4 Black 4 4, Move 2 0 0 White 5 5] startedSession))))) \<notin>
     set (map spec_layout (positions [Move 1 4 4 Black 4 4, Move 2 0 0 White 5 5] startedSession))"
    by blast
  from a b show ?thesis by blast
qed

text \<open>
  C3 as stated fails, on a document the routes store. Black plays (4,4) and White
  (0,0), through the move route: \<open>movedOnceSession\<close> and \<open>movedTwiceSession\<close>. Alice then
  sends her ready request again; the ready route checks no status, finds both players
  ready and calls \<^verbatim>\<open>startGame\<close>, which re-initialises the board. In the stored
  \<open>restartedSession\<close> the board is empty, the history holds the two moves, the ko rule
  is \<^verbatim>\<open>standard\<close> and Black is to move. Black plays (4,4) once more. The board that
  \<^verbatim>\<open>makeMove\<close> leaves has the stone layout of \<open>movedOnceSession\<close>, the position before
  White's move, one ply before the last position played, with the same colour to move;
  it is also a position the session has been in. \<^verbatim>\<open>makeMove\<close> accepts the move, under
  \<^verbatim>\<open>standard\<close> and under \<^verbatim>\<open>superko\<close>, and the move route answers 200.
\<close>

theorem repeated_position_is_accepted:
  "reachable movedOnceSession \<and> reachable movedTwiceSession \<and> reachable restartedSession \<and>
   length (moveHistory (boardState movedOnceSession)) = 1 \<and>
   moveHistory (boardState movedTwiceSession) =
     moveHistory (boardState movedOnceSession) @ [stoneMove 2 White 0 0 5] \<and>
   moveHistory (boardState restartedSession) = moveHistory (boardState movedTwiceSession) \<and>
   status restartedSession = Active \<and>
   koRule (gameRules restartedSession) = Standard \<and>
   fst (makeMove 1 4 4 Black 7 7 restartedSession) = Inr True \<and>
   spec_layout (board (boardState (snd (makeMove 1 4 4 Black 7 7 restartedSession)))) =
     spec_layout (board (boardState movedOnceSession)) \<and>
   currentTurn (boardState (snd (makeMove 1 4 4 Black 7 7 restartedSession))) =
     currentTurn (boardState movedOnceSession) \<and>
   spec_layout (board (boardState movedTwiceSession)) \<noteq>
     spec_layout (board (boardState movedOnceSession)) \<and>
   fst (moveRoute (Some restartedSession) 1 4 4 7 7) = JsonOk 200 ''Move made successfully'' \<and>
   fst (makeMove 1 4 4 Black 7 7
     (restartedSession\<lparr>gameRules := (gameRules restartedSession)\<lparr>koRule := Superko\<rparr>\<rparr>)) =
     Inr True \<and>
   spec_layout (board (boardState (snd (makeMove 1 4 4 Black 7 7
     (restartedSession\<lparr>gameRules := (gameRules restartedSession)\<lparr>koRule := Superko\<rparr>\<rparr>))))) =
     spec_layout (board (boardState movedOnceSession))"
proof -
  have played: "length (moveHistory (boardState movedOnceSession)) = 1 \<and>
   moveHistory (boardState movedTwiceSession) =
     moveHistory (boardState movedOnceSession) @ [stoneMove 2 White 0 0 5] \<and>
   moveHistory (boardState restartedSession) = moveHistory (boardState movedTwiceSession)"
    by code_simp
  have standard: "status restartedSession = Active \<and>
   koRule (gameRules restartedSession) = Standard \<and>
   fst (makeMove 1 4 4 Black 7 7 restartedSession) = Inr True \<and>
   spec_layout (board (boardState (snd (makeMove 1 4 4 Black 7 7 restartedSession)))) =
     spec_layout (board (boardState movedOnceSession)) \<and>
   currentTurn (boardState (snd (makeMove 1 4 4 Black 7 7 restartedSession))) =
     currentTurn (boardState movedOnceSession) \<and>
   spec_layout (board (boardState movedTwiceSession)) \<noteq>
     spec_layout (board (boardState movedOnceSession)) \<and>
   fst (moveRoute (Some restartedSession) 1 4 4 7 7) = JsonOk 200 ''Move made successfully''"
    by code_simp
  have superko: "fst (makeMove 1 4 4 Black 7 7
     (restartedSession\<lparr>gameRules := (gameRules restartedSession)\<lparr>koRule := Superko\<rparr>\<rparr>)) =
     Inr True \<and>
   spec_layout (board (boardState (snd (makeMove 1 4 4 Black 7 7
     (restartedSession\<lparr>gameRules := (gameRules restartedSession)\<lparr>koRule := Superko\<rparr>\<rparr>))))) =
     spec_layout (board (boardState movedOnceSession))"
    by code_simp
  from reachable_examples(4,5,6) played standard superko show ?thesis
    by blast
qed

end
